theory Spec2Isabelle
  imports Complex_Main
begin

section \<open>Errors\<close>

text \<open>
  The failures the modelled code can raise: the \<^verbatim>\<open>Error\<close> thrown by the orchestrator
  when validation rejects the event, a JavaScript \<^verbatim>\<open>TypeError\<close> (reading a property of
  \<^verbatim>\<open>null\<close>/\<^verbatim>\<open>undefined\<close>, iterating a non-iterable), and a violated
  \<^verbatim>\<open>CHECK\<close> or \<^verbatim>\<open>NOT NULL\<close> constraint of the database schema.
\<close>

datatype error = ValidationRejected | TypeError | CheckViolation | NotNullViolation

section \<open>Eligibility validator (MLMService.validateCpa)\<close>

text \<open>
  A numeric value as the validator meets it: a number (modelled as an exact rational),
  \<^verbatim>\<open>undefined\<close> (an absent field) or \<^verbatim>\<open>null\<close> (a \<^verbatim>\<open>NULL\<close> column of the
  source record, or a \<^verbatim>\<open>null\<close> in the configuration).
\<close>

datatype js_number = JsUndefined | JsNull | JsNum rat

text \<open>
  The conversion a relational comparison applies to its operands: \<^verbatim>\<open>undefined\<close>
  becomes \<^verbatim>\<open>NaN\<close> (\<open>None\<close>) and \<^verbatim>\<open>null\<close> becomes 0.
\<close>

fun to_number :: "js_number \<Rightarrow> rat option" where
  "to_number JsUndefined = None"
| "to_number JsNull = Some 0"
| "to_number (JsNum x) = Some x"

text \<open>\<^verbatim>\<open>a >= b\<close>: false as soon as one operand converts to \<^verbatim>\<open>NaN\<close>.\<close>

definition js_ge :: "js_number \<Rightarrow> js_number \<Rightarrow> bool" where
  "js_ge a b = (case to_number a of None \<Rightarrow> False
                | Some x \<Rightarrow> (case to_number b of None \<Rightarrow> False | Some y \<Rightarrow> y \<le> x))"

record cpa_data =
  amount :: rat
  depositAmount :: js_number
  betsCount :: js_number
  totalBetAmount :: js_number
  daysActive :: js_number
  ruleId :: "string option"

record criterion =
  c_type :: string
  c_value :: js_number
  c_enabled :: bool

text \<open>
  A group's \<^verbatim>\<open>criteria\<close> field is \<open>None\<close> when it is missing or not iterable; an entry
  of the array is \<open>None\<close> when it is \<^verbatim>\<open>null\<close>. The same for the rule set's
  \<^verbatim>\<open>groups\<close> field (\<open>None\<close>: absent) and its entries.
\<close>

record rule_group =
  g_operator :: string
  g_criteria :: "criterion option list option"

record rule_set =
  groups :: "rule_group option list option"
  group_operator :: string

text \<open>The \<^verbatim>\<open>switch (criteria.type)\<close>; the measured attributes are read from
  \<^verbatim>\<open>cpaData\<close>, which raises when \<^verbatim>\<open>cpaData\<close> is \<^verbatim>\<open>null\<close>.\<close>

definition evalCriterion :: "cpa_data option \<Rightarrow> criterion \<Rightarrow> error + bool" where
  "evalCriterion cpaData cr =
     (if c_type cr = ''deposit'' then
        (case cpaData of None \<Rightarrow> Inl TypeError
         | Some d \<Rightarrow> Inr (js_ge (depositAmount d) (c_value cr)))
      else if c_type cr = ''bets'' then
        (case cpaData of None \<Rightarrow> Inl TypeError
         | Some d \<Rightarrow> Inr (js_ge (betsCount d) (c_value cr)))
      else if c_type cr = ''bet_amount'' then
        (case cpaData of None \<Rightarrow> Inl TypeError
         | Some d \<Rightarrow> Inr (js_ge (totalBetAmount d) (c_value cr)))
      else if c_type cr = ''days_active'' then
        (case cpaData of None \<Rightarrow> Inl TypeError
         | Some d \<Rightarrow> Inr (js_ge (daysActive d) (c_value cr)))
      else Inr False)"

text \<open>The inner loop: \<^verbatim>\<open>criteriaResults\<close> collects one result per enabled criterion.\<close>

fun evalCriteria :: "cpa_data option \<Rightarrow> criterion option list \<Rightarrow> error + bool list" where
  "evalCriteria cpaData [] = Inr []"
| "evalCriteria cpaData (c # cs) =
     (case c of None \<Rightarrow> Inl TypeError
      | Some cr \<Rightarrow>
          if \<not> c_enabled cr then evalCriteria cpaData cs
          else (case evalCriterion cpaData cr of Inl e \<Rightarrow> Inl e
                | Inr r \<Rightarrow> (case evalCriteria cpaData cs of Inl e \<Rightarrow> Inl e
                            | Inr rs \<Rightarrow> Inr (r # rs))))"

text \<open>\<^verbatim>\<open>every(r => r)\<close> and \<^verbatim>\<open>some(r => r)\<close>.\<close>

definition every :: "bool list \<Rightarrow> bool" where
  "every rs = list_all (\<lambda>r. r) rs"

definition some :: "bool list \<Rightarrow> bool" where
  "some rs = list_ex (\<lambda>r. r) rs"

text \<open>One pass of the outer loop body: the group's result.\<close>

definition evalGroup :: "cpa_data option \<Rightarrow> rule_group option \<Rightarrow> error + bool" where
  "evalGroup cpaData g =
     (case g of None \<Rightarrow> Inl TypeError
      | Some gr \<Rightarrow>
          (case g_criteria gr of None \<Rightarrow> Inl TypeError
           | Some cs \<Rightarrow>
               (case evalCriteria cpaData cs of Inl e \<Rightarrow> Inl e
                | Inr rs \<Rightarrow> Inr (if g_operator gr = ''AND'' then every rs else some rs))))"

fun evalGroups :: "cpa_data option \<Rightarrow> rule_group option list \<Rightarrow> error + bool list" where
  "evalGroups cpaData [] = Inr []"
| "evalGroups cpaData (g # gs) =
     (case evalGroup cpaData g of Inl e \<Rightarrow> Inl e
      | Inr r \<Rightarrow> (case evalGroups cpaData gs of Inl e \<Rightarrow> Inl e
                  | Inr rs \<Rightarrow> Inr (r # rs)))"

text \<open>The body of the \<^verbatim>\<open>try\<close> block of \<^verbatim>\<open>validateCpa\<close>.\<close>

definition validateCpa_try :: "int \<Rightarrow> cpa_data option \<Rightarrow> rule_set option \<Rightarrow> error + bool" where
  "validateCpa_try userId cpaData validationRules =
     (case validationRules of None \<Rightarrow> Inr True
      | Some rules \<Rightarrow>
          (case groups rules of None \<Rightarrow> Inr True
           | Some gs \<Rightarrow>
               if length gs = 0 then Inr True
               else (case evalGroups cpaData gs of Inl e \<Rightarrow> Inl e
                     | Inr groupResults \<Rightarrow>
                         Inr (if group_operator rules = ''AND'' then every groupResults
                              else some groupResults))))"

text \<open>\<^verbatim>\<open>validateCpa\<close>: the \<^verbatim>\<open>catch\<close> turns every exception into \<^verbatim>\<open>false\<close>.\<close>

definition validateCpa :: "int \<Rightarrow> cpa_data option \<Rightarrow> rule_set option \<Rightarrow> bool" where
  "validateCpa userId cpaData validationRules =
     (case validateCpa_try userId cpaData validationRules of
        Inl e \<Rightarrow> False
      | Inr b \<Rightarrow> b)"

section \<open>Distribution calculator (MLMService.calculateDistributions)\<close>

text \<open>Decimal rendering of an integer, as a template literal prints it.\<close>

definition digit_char :: "nat \<Rightarrow> char" where
  "digit_char d = ''0123456789'' ! d"

fun show_nat :: "nat \<Rightarrow> string" where
  "show_nat n = (if n < 10 then [digit_char n]
                 else show_nat (n div 10) @ [digit_char (n mod 10)])"

declare show_nat.simps [simp del]

definition show_int :: "int \<Rightarrow> string" where
  "show_int i = (if i < 0 then ''-'' @ show_nat (nat (- i)) else show_nat (nat i))"

definition levelKey :: "int \<Rightarrow> string" where
  "levelKey l = ''level_'' @ show_int l"

text \<open>A row returned by \<^verbatim>\<open>getAffiliateUpline\<close>.\<close>

record upline_row =
  u_affiliate_id :: int
  u_parent_id :: "int option"
  u_level :: int
  u_path :: "int list"
  u_upline_level :: int

text \<open>The \<^verbatim>\<open>mlm_settings\<close> configuration object; a missing field is \<open>None\<close>.\<close>

record mlm_settings =
  max_hierarchy_levels :: "int option"
  minimum_amount :: "rat option"
  currency :: "string option"

record distribution =
  d_affiliate_id :: int
  d_affiliate_level :: int
  d_amount :: rat
  d_currency :: string

text \<open>\<^verbatim>\<open>mlmSettings.currency || 'BRL'\<close>: the empty string is falsy.\<close>

definition currency_or_default :: "mlm_settings \<Rightarrow> string" where
  "currency_or_default s =
     (case currency s of None \<Rightarrow> ''BRL'' | Some c \<Rightarrow> if c = [] then ''BRL'' else c)"

text \<open>\<^verbatim>\<open>affiliate.upline_level <= mlmSettings.max_hierarchy_levels\<close>: false when the
  setting is \<^verbatim>\<open>undefined\<close>.\<close>

definition within_max :: "int \<Rightarrow> mlm_settings \<Rightarrow> bool" where
  "within_max l s = (case max_hierarchy_levels s of None \<Rightarrow> False | Some m \<Rightarrow> l \<le> m)"

text \<open>The \<^verbatim>\<open>for\<close> loop over the upline, pushing onto \<^verbatim>\<open>distributions\<close>.\<close>

fun calculateDistributions_loop ::
  "(string \<rightharpoonup> rat) \<Rightarrow> mlm_settings \<Rightarrow> distribution list \<Rightarrow> upline_row list \<Rightarrow> distribution list" where
  "calculateDistributions_loop cpaAmounts mlmSettings distributions [] = distributions"
| "calculateDistributions_loop cpaAmounts mlmSettings distributions (affiliate # rest) =
     (case cpaAmounts (levelKey (u_upline_level affiliate)) of
        None \<Rightarrow> calculateDistributions_loop cpaAmounts mlmSettings distributions rest
      | Some amt \<Rightarrow>
          if amt \<noteq> 0 \<and> amt > 0 \<and> within_max (u_upline_level affiliate) mlmSettings
          then calculateDistributions_loop cpaAmounts mlmSettings
                 (distributions @
                    [\<lparr>d_affiliate_id = u_affiliate_id affiliate,
                      d_affiliate_level = u_upline_level affiliate,
                      d_amount = amt,
                      d_currency = currency_or_default mlmSettings\<rparr>]) rest
          else calculateDistributions_loop cpaAmounts mlmSettings distributions rest)"

definition calculateDistributions ::
  "upline_row list \<Rightarrow> (string \<rightharpoonup> rat) \<Rightarrow> mlm_settings \<Rightarrow> distribution list" where
  "calculateDistributions upline cpaAmounts mlmSettings =
     calculateDistributions_loop cpaAmounts mlmSettings [] upline"

section \<open>Hierarchy store (MLMModel)\<close>

text \<open>
  One row of \<^verbatim>\<open>mlm_hierarchy\<close>. The table is the list of its rows in insertion order;
  \<^verbatim>\<open>affiliate_id\<close> is unique by the schema's constraint \<^verbatim>\<open>unique_affiliate\<close>.
\<close>

record mlm_row =
  affiliate_id :: int
  parent_id :: "int option"
  level :: int
  path :: "int list"
  active :: bool

type_synonym mlm_hierarchy = "mlm_row list"

text \<open>The schema's \<^verbatim>\<open>CONSTRAINT valid_level CHECK (level >= 1 AND level <= 10)\<close>.\<close>

definition valid_level :: "int \<Rightarrow> bool" where
  "valid_level l = (1 \<le> l \<and> l \<le> 10)"

text \<open>\<^verbatim>\<open>SELECT * FROM mlm_hierarchy WHERE affiliate_id = $1\<close>.\<close>

definition select_affiliate :: "int \<Rightarrow> mlm_hierarchy \<Rightarrow> mlm_row list" where
  "select_affiliate a tbl = filter (\<lambda>r. affiliate_id r = a) tbl"

text \<open>
  \<^verbatim>\<open>SELECT level, path FROM mlm_hierarchy WHERE affiliate_id = $1 AND active = true\<close>;
  with a \<^verbatim>\<open>NULL\<close> parameter the comparison selects no row.
\<close>

definition select_active :: "int option \<Rightarrow> mlm_hierarchy \<Rightarrow> mlm_row list" where
  "select_active p tbl =
     (case p of None \<Rightarrow> []
      | Some q \<Rightarrow> filter (\<lambda>r. affiliate_id r = q \<and> active r) tbl)"

text \<open>\<^verbatim>\<open>if (parentId)\<close>: \<^verbatim>\<open>null\<close> and \<^verbatim>\<open>0\<close> are falsy.\<close>

definition truthy :: "int option \<Rightarrow> bool" where
  "truthy p = (case p of None \<Rightarrow> False | Some q \<Rightarrow> q \<noteq> 0)"

text \<open>
  The block that computes level and path from the parent; it occurs with the same text in
  \<^verbatim>\<open>upsertAffiliate\<close> and in \<^verbatim>\<open>updateAffiliateParent\<close>.
\<close>

definition level_and_path :: "int \<Rightarrow> int option \<Rightarrow> mlm_hierarchy \<Rightarrow> int \<times> int list" where
  "level_and_path a p tbl =
     (if truthy p then
        (case select_active p tbl of
           [] \<Rightarrow> (1, [a])
         | parent # _ \<Rightarrow> (level parent + 1, path parent @ [a]))
      else (1, [a]))"

text \<open>
  \<^verbatim>\<open>UPDATE mlm_hierarchy SET parent_id = $1, level = $2, path = $3 WHERE affiliate_id = $4\<close>:
  fails on the level constraint when a row is touched.
\<close>

definition update_parent :: "int \<Rightarrow> int option \<Rightarrow> int \<Rightarrow> int list \<Rightarrow> mlm_hierarchy \<Rightarrow> error + mlm_hierarchy" where
  "update_parent a p l pa tbl =
     (if list_ex (\<lambda>r. affiliate_id r = a) tbl \<and> \<not> valid_level l then Inl CheckViolation
      else Inr (map (\<lambda>r. if affiliate_id r = a then r\<lparr>parent_id := p, level := l, path := pa\<rparr> else r) tbl))"

text \<open>\<^verbatim>\<open>UPDATE mlm_hierarchy SET level = $1, path = $2 WHERE affiliate_id = $3\<close>.\<close>

definition update_level_path :: "int \<Rightarrow> int \<Rightarrow> int list \<Rightarrow> mlm_hierarchy \<Rightarrow> error + mlm_hierarchy" where
  "update_level_path a l pa tbl =
     (if list_ex (\<lambda>r. affiliate_id r = a) tbl \<and> \<not> valid_level l then Inl CheckViolation
      else Inr (map (\<lambda>r. if affiliate_id r = a then r\<lparr>level := l, path := pa\<rparr> else r) tbl))"

text \<open>
  The descendants selected by \<^verbatim>\<open>updateDescendants\<close>:
  \<^verbatim>\<open>WHERE $1 = ANY(path) AND affiliate_id != $1 AND active = true ORDER BY array_length(path, 1)\<close>.
  The order among rows of equal path length is not fixed by the query; the model keeps
  the table order there (a stable sort).
\<close>

definition select_descendants :: "int \<Rightarrow> mlm_hierarchy \<Rightarrow> mlm_row list" where
  "select_descendants a tbl =
     sort_key (\<lambda>r. length (path r))
       (filter (\<lambda>r. a \<in> set (path r) \<and> affiliate_id r \<noteq> a \<and> active r) tbl)"

text \<open>The loop of \<^verbatim>\<open>updateDescendants\<close>: each descendant is recomputed from the
  current row of its parent; a descendant whose parent is not found is left as it is.\<close>

fun updateDescendants_loop :: "mlm_row list \<Rightarrow> mlm_hierarchy \<Rightarrow> error + mlm_hierarchy" where
  "updateDescendants_loop [] tbl = Inr tbl"
| "updateDescendants_loop (descendant # rest) tbl =
     (case select_active (parent_id descendant) tbl of
        [] \<Rightarrow> updateDescendants_loop rest tbl
      | parent # _ \<Rightarrow>
          (case update_level_path (affiliate_id descendant) (level parent + 1)
                  (path parent @ [affiliate_id descendant]) tbl of
             Inl e \<Rightarrow> Inl e
           | Inr tbl' \<Rightarrow> updateDescendants_loop rest tbl'))"

definition updateDescendants :: "int \<Rightarrow> mlm_hierarchy \<Rightarrow> error + mlm_hierarchy" where
  "updateDescendants a tbl = updateDescendants_loop (select_descendants a tbl) tbl"

definition updateAffiliateParent :: "int \<Rightarrow> int option \<Rightarrow> mlm_hierarchy \<Rightarrow> error + mlm_hierarchy" where
  "updateAffiliateParent a newParentId tbl =
     (case level_and_path a newParentId tbl of
        (newLevel, newPath) \<Rightarrow>
          (case update_parent a newParentId newLevel newPath tbl of
             Inl e \<Rightarrow> Inl e
           | Inr tbl' \<Rightarrow> updateDescendants a tbl'))"

text \<open>
  \<^verbatim>\<open>upsertAffiliate\<close> runs in one transaction: on an error the table is rolled back
  and the error is rethrown. The result is the returned row (or the error) and the table
  afterwards. A new row gets the column default \<^verbatim>\<open>active = TRUE\<close>.
\<close>

definition upsertAffiliate :: "int \<Rightarrow> int option \<Rightarrow> mlm_hierarchy \<Rightarrow> (error + mlm_row) \<times> mlm_hierarchy" where
  "upsertAffiliate a parentId tbl =
     (case select_affiliate a tbl of
        existing # _ \<Rightarrow>
          if parent_id existing \<noteq> parentId then
            (case updateAffiliateParent a parentId tbl of
               Inl e \<Rightarrow> (Inl e, tbl)
             | Inr tbl' \<Rightarrow> (Inr existing, tbl'))
          else (Inr existing, tbl)
      | [] \<Rightarrow>
          (case level_and_path a parentId tbl of
             (l, pa) \<Rightarrow>
               if \<not> valid_level l then (Inl CheckViolation, tbl)
               else (let row = \<lparr>affiliate_id = a, parent_id = parentId, level = l,
                                path = pa, active = True\<rparr>
                     in (Inr row, tbl @ [row]))))"

text \<open>A sequence of \<^verbatim>\<open>upsertAffiliate\<close> calls, each on the table the previous one left.\<close>

fun upsert_all :: "(int \<times> int option) list \<Rightarrow> mlm_hierarchy \<Rightarrow> mlm_hierarchy" where
  "upsert_all [] tbl = tbl"
| "upsert_all ((a, p) # ops) tbl = upsert_all ops (snd (upsertAffiliate a p tbl))"

subsection \<open>Upline resolution (MLMModel.getAffiliateUpline)\<close>

text \<open>
  The recursive term of the query's \<^verbatim>\<open>WITH RECURSIVE upline_tree\<close>: the rows joined
  to the working table on \<^verbatim>\<open>h.affiliate_id = ut.parent_id\<close>, under
  \<^verbatim>\<open>ut.upline_level < $2 AND h.active = true\<close>. All rows of one working table
  carry the same \<^verbatim>\<open>upline_level\<close>, here \<open>ul\<close>.
\<close>

definition recursive_term :: "mlm_hierarchy \<Rightarrow> int \<Rightarrow> int \<Rightarrow> mlm_row list \<Rightarrow> mlm_row list" where
  "recursive_term tbl maxLevels ul working =
     (if ul < maxLevels then
        concat (map (\<lambda>ut. filter (\<lambda>h. parent_id ut = Some (affiliate_id h) \<and> active h) tbl) working)
      else [])"

definition upline_rows :: "int \<Rightarrow> mlm_row list \<Rightarrow> upline_row list" where
  "upline_rows ul working =
     map (\<lambda>h. \<lparr>u_affiliate_id = affiliate_id h, u_parent_id = parent_id h, u_level = level h,
               u_path = path h, u_upline_level = ul\<rparr>) working"

text \<open>The iteration of the recursive query: it ends when the working table is empty.\<close>

function upline_tree :: "mlm_hierarchy \<Rightarrow> int \<Rightarrow> int \<Rightarrow> mlm_row list \<Rightarrow> upline_row list" where
  "upline_tree tbl maxLevels ul working =
     (if working = [] then []
      else upline_rows ul working
           @ upline_tree tbl maxLevels (ul + 1) (recursive_term tbl maxLevels ul working))"
  by pat_completeness auto
termination
  by (relation "measure (\<lambda>(tbl, maxLevels, ul, working).
                  if working = [] then 0 else 1 + nat (maxLevels - ul))")
     (auto simp: recursive_term_def)

declare upline_tree.simps [simp del]

text \<open>
  \<^verbatim>\<open>getAffiliateUpline(affiliateId, maxLevels = 5)\<close>: the start row must be active;
  the result keeps \<^verbatim>\<open>upline_level > 1\<close>, ordered by \<^verbatim>\<open>upline_level\<close>. An
  \<^verbatim>\<open>undefined\<close> second argument (\<open>None\<close>) takes the default 5.
\<close>

definition getAffiliateUpline :: "int \<Rightarrow> int option \<Rightarrow> mlm_hierarchy \<Rightarrow> upline_row list" where
  "getAffiliateUpline a maxLevels tbl =
     (let m = (case maxLevels of None \<Rightarrow> 5 | Some n \<Rightarrow> n)
      in sort_key u_upline_level
           (filter (\<lambda>u. u_upline_level u > 1)
              (upline_tree tbl m 1 (filter (\<lambda>r. affiliate_id r = a \<and> active r) tbl))))"

section \<open>Statistics aggregator\<close>

text \<open>
  The statistics object built per participant: \<open>level_cpas k\<close> and \<open>level_amount k\<close>
  stand for the fields \<^verbatim>\<open>level_k_cpas\<close> and \<^verbatim>\<open>level_k_amount\<close>, \<open>k\<close> from 1 to 5.
\<close>

record stats =
  total_cpas :: int
  total_amount :: rat
  level_cpas :: "int \<Rightarrow> int"
  level_amount :: "int \<Rightarrow> rat"

definition zero_stats :: stats where
  "zero_stats = \<lparr>total_cpas = 0, total_amount = 0, level_cpas = (\<lambda>k. 0), level_amount = (\<lambda>k. 0)\<rparr>"

text \<open>The four \<^verbatim>\<open>+=\<close> of the loop body. For a level outside 1..5 the two level
  fields do not exist; the properties created then are not among the stored columns.\<close>

definition add_distribution :: "stats \<Rightarrow> distribution \<Rightarrow> stats" where
  "add_distribution s d =
     (let s1 = s\<lparr>total_cpas := total_cpas s + 1, total_amount := total_amount s + d_amount d\<rparr>;
          l = d_affiliate_level d
      in if 1 \<le> l \<and> l \<le> 5
         then s1\<lparr>level_cpas := (level_cpas s1)(l := level_cpas s1 l + 1),
                 level_amount := (level_amount s1)(l := level_amount s1 l + d_amount d)\<rparr>
         else s1)"

text \<open>The \<^verbatim>\<open>Map\<close> \<^verbatim>\<open>affiliateStats\<close>, in insertion order.\<close>

definition group_step :: "(int \<times> stats) list \<Rightarrow> distribution \<Rightarrow> (int \<times> stats) list" where
  "group_step affiliateStats d =
     (let a = d_affiliate_id d;
          m1 = (if list_ex (\<lambda>e. fst e = a) affiliateStats then affiliateStats
                else affiliateStats @ [(a, zero_stats)])
      in map (\<lambda>e. if fst e = a then (fst e, add_distribution (snd e) d) else e) m1)"

fun group_by_affiliate :: "(int \<times> stats) list \<Rightarrow> distribution list \<Rightarrow> (int \<times> stats) list" where
  "group_by_affiliate affiliateStats [] = affiliateStats"
| "group_by_affiliate affiliateStats (d # ds) = group_by_affiliate (group_step affiliateStats d) ds"

text \<open>Table \<^verbatim>\<open>mlm_statistics\<close>, keyed by its unique
  \<^verbatim>\<open>(affiliate_id, period_start, period_end)\<close>.\<close>

type_synonym mlm_statistics = "(int \<times> int \<times> int) \<rightharpoonup> stats"

text \<open>
  \<^verbatim>\<open>updateAffiliateStatistics\<close>: \<^verbatim>\<open>INSERT ... ON CONFLICT (affiliate_id, period_start,
  period_end) DO UPDATE SET total_cpas = EXCLUDED.total_cpas, ...\<close>: a new row holds the
  given values, and so does an existing row afterwards, every column being set from
  \<^verbatim>\<open>EXCLUDED\<close>.
\<close>

definition updateAffiliateStatistics :: "int \<Rightarrow> int \<Rightarrow> int \<Rightarrow> stats \<Rightarrow> mlm_statistics \<Rightarrow> mlm_statistics" where
  "updateAffiliateStatistics a periodStart periodEnd st tbl = tbl((a, periodStart, periodEnd) \<mapsto> st)"

fun store_all :: "int \<Rightarrow> int \<Rightarrow> (int \<times> stats) list \<Rightarrow> mlm_statistics \<Rightarrow> mlm_statistics" where
  "store_all periodStart periodEnd [] tbl = tbl"
| "store_all periodStart periodEnd (e # es) tbl =
     store_all periodStart periodEnd es
       (updateAffiliateStatistics (fst e) periodStart periodEnd (snd e) tbl)"

text \<open>\<^verbatim>\<open>MLMService.updateStatistics\<close>; the period is the current calendar month.\<close>

definition updateStatistics :: "int \<Rightarrow> int \<Rightarrow> distribution list \<Rightarrow> mlm_statistics \<Rightarrow> mlm_statistics" where
  "updateStatistics periodStart periodEnd distributions tbl =
     store_all periodStart periodEnd (group_by_affiliate [] distributions) tbl"

section \<open>Configuration (ConfigClient and MLMService.getConfig)\<close>

text \<open>What the configuration provider answers; \<open>None\<close>: the request fails or the answer
  carries no success flag.\<close>

record config_service =
  level_amounts_endpoint :: "(string \<rightharpoonup> rat) option"
  validation_rules_endpoint :: "rule_set option"
  mlm_settings_endpoint :: "mlm_settings option"

text \<open>The client's unexpired cache entries (\<open>None\<close>: no entry, or expired).\<close>

record client_cache =
  cc_level_amounts :: "(string \<rightharpoonup> rat) option"
  cc_validation_rules :: "rule_set option"
  cc_mlm_settings :: "mlm_settings option"

definition default_level_amounts :: "string \<rightharpoonup> rat" where
  "default_level_amounts =
     [''level_1'' \<mapsto> 50, ''level_2'' \<mapsto> 20, ''level_3'' \<mapsto> 5, ''level_4'' \<mapsto> 5, ''level_5'' \<mapsto> 5]"

definition default_validation_rules :: rule_set where
  "default_validation_rules = \<lparr>groups = Some [], group_operator = ''OR''\<rparr>"

definition default_mlm_settings :: mlm_settings where
  "default_mlm_settings =
     \<lparr>max_hierarchy_levels = Some 5, minimum_amount = Some (1 / 100), currency = Some ''BRL''\<rparr>"

definition getCpaLevelAmounts :: "config_service \<Rightarrow> (string \<rightharpoonup> rat)" where
  "getCpaLevelAmounts svc =
     (case level_amounts_endpoint svc of Some v \<Rightarrow> v | None \<Rightarrow> default_level_amounts)"

definition getCpaValidationRules :: "config_service \<Rightarrow> rule_set" where
  "getCpaValidationRules svc =
     (case validation_rules_endpoint svc of Some v \<Rightarrow> v | None \<Rightarrow> default_validation_rules)"

text \<open>\<^verbatim>\<open>ConfigClient.getConfig(key, defaultValue)\<close> at each of the three keys.\<close>

definition client_getConfig_level_amounts :: "client_cache \<Rightarrow> config_service \<Rightarrow> (string \<rightharpoonup> rat)" where
  "client_getConfig_level_amounts cc svc =
     (case cc_level_amounts cc of Some v \<Rightarrow> v | None \<Rightarrow> getCpaLevelAmounts svc)"

definition client_getConfig_validation_rules :: "client_cache \<Rightarrow> config_service \<Rightarrow> rule_set" where
  "client_getConfig_validation_rules cc svc =
     (case cc_validation_rules cc of Some v \<Rightarrow> v | None \<Rightarrow> getCpaValidationRules svc)"

definition client_getConfig_mlm_settings ::
  "client_cache \<Rightarrow> config_service \<Rightarrow> mlm_settings option \<Rightarrow> mlm_settings option \<times> client_cache" where
  "client_getConfig_mlm_settings cc svc defaultValue =
     (case cc_mlm_settings cc of
        Some v \<Rightarrow> (Some v, cc)
      | None \<Rightarrow>
          (case mlm_settings_endpoint svc of
             Some v \<Rightarrow> (Some v, cc\<lparr>cc_mlm_settings := Some v\<rparr>)
           | None \<Rightarrow> (defaultValue, cc)))"

text \<open>\<^verbatim>\<open>ConfigClient.getMlmSettings\<close>: the same fetch with the default settings.\<close>

definition getMlmSettings :: "client_cache \<Rightarrow> config_service \<Rightarrow> mlm_settings option \<times> client_cache" where
  "getMlmSettings cc svc = client_getConfig_mlm_settings cc svc (Some default_mlm_settings)"

text \<open>The service's \<^verbatim>\<open>configCache\<close>: per key, \<open>None\<close> when the key is not in the
  \<^verbatim>\<open>Map\<close>; a stored value may itself be \<^verbatim>\<open>null\<close> (inner \<open>None\<close>).\<close>

record config_cache =
  cached_level_amounts :: "(string \<rightharpoonup> rat) option"
  cached_mlm_settings :: "mlm_settings option option"
  cached_validation_rules :: "rule_set option option"

section \<open>Distribution orchestrator (MLMService.processCpaForDistribution)\<close>

record cpa_validado =
  cv_id :: nat
  cv_user_id :: int
  cv_affiliate_id :: int
  cv_affiliate_level :: int
  cv_cpa_amount :: rat
  cv_validation_rule_id :: string

record cpa_distribution =
  cd_cpa_validado_id :: nat
  cd_user_id :: int
  cd_affiliate_id :: int
  cd_affiliate_level :: int
  cd_original_amount :: rat
  cd_distributed_amount :: rat
  cd_transaction_id :: string

record operation_log =
  ol_entity_id :: string
  ol_status :: string
  ol_error_message :: "string option"

record mlm_state =
  configCache :: config_cache
  clientCache :: client_cache
  hierarchy :: mlm_hierarchy
  cpa_validados :: "cpa_validado list"
  cpa_distributions :: "cpa_distribution list"
  statistics :: mlm_statistics
  operation_logs :: "operation_log list"

text \<open>What the operation reads from outside: the provider, the clock and the current
  calendar month.\<close>

record environment =
  provider :: config_service
  now :: int
  period_start :: int
  period_end :: int

text \<open>\<^verbatim>\<open>MLMService.getConfig(key)\<close> at each key; the default value is \<^verbatim>\<open>null\<close>.\<close>

definition getConfig_level_amounts :: "environment \<Rightarrow> mlm_state \<Rightarrow> (string \<rightharpoonup> rat) \<times> mlm_state" where
  "getConfig_level_amounts env st =
     (case cached_level_amounts (configCache st) of
        Some v \<Rightarrow> (v, st)
      | None \<Rightarrow>
          (let v = client_getConfig_level_amounts (clientCache st) (provider env)
           in (v, st\<lparr>configCache := (configCache st)\<lparr>cached_level_amounts := Some v\<rparr>\<rparr>)))"

definition getConfig_mlm_settings :: "environment \<Rightarrow> mlm_state \<Rightarrow> mlm_settings option \<times> mlm_state" where
  "getConfig_mlm_settings env st =
     (case cached_mlm_settings (configCache st) of
        Some v \<Rightarrow> (v, st)
      | None \<Rightarrow>
          (case client_getConfig_mlm_settings (clientCache st) (provider env) None of
             (v, cc) \<Rightarrow>
               (v, st\<lparr>clientCache := cc,
                      configCache := (configCache st)\<lparr>cached_mlm_settings := Some v\<rparr>\<rparr>)))"

definition getConfig_validation_rules :: "environment \<Rightarrow> mlm_state \<Rightarrow> rule_set option \<times> mlm_state" where
  "getConfig_validation_rules env st =
     (case cached_validation_rules (configCache st) of
        Some v \<Rightarrow> (v, st)
      | None \<Rightarrow>
          (let v = Some (client_getConfig_validation_rules (clientCache st) (provider env))
           in (v, st\<lparr>configCache := (configCache st)\<lparr>cached_validation_rules := Some v\<rparr>\<rparr>)))"

text \<open>\<^verbatim>\<open>error.message\<close>, as written to the audit log.\<close>

fun error_message :: "error \<Rightarrow> string" where
  "error_message ValidationRejected = ''CPA nao atende aos criterios de validacao''"
| "error_message TypeError = ''TypeError''"
| "error_message CheckViolation = ''check constraint''"
| "error_message NotNullViolation = ''not-null constraint''"

text \<open>
  \<^verbatim>\<open>saveCpaValidado\<close>: the inserted row comes back with the identifier the database
  generated (here the next free number). \<^verbatim>\<open>cpaData.ruleId || 'default'\<close>.
\<close>

definition saveCpaValidado :: "int \<Rightarrow> int \<Rightarrow> cpa_data \<Rightarrow> mlm_state \<Rightarrow> cpa_validado \<times> mlm_state" where
  "saveCpaValidado userId affiliateId cpaData st =
     (let row = \<lparr>cv_id = length (cpa_validados st),
                  cv_user_id = userId,
                  cv_affiliate_id = affiliateId,
                  cv_affiliate_level = 1,
                  cv_cpa_amount = amount cpaData,
                  cv_validation_rule_id =
                    (case ruleId cpaData of None \<Rightarrow> ''default''
                     | Some r \<Rightarrow> if r = [] then ''default'' else r)\<rparr>
      in (row, st\<lparr>cpa_validados := cpa_validados st @ [row]\<rparr>))"

text \<open>
  \<^verbatim>\<open>saveCpaDistribution\<close>: column \<^verbatim>\<open>user_id\<close> of \<^verbatim>\<open>cpa_distributions\<close> is declared
  \<^verbatim>\<open>INTEGER NOT NULL\<close>, so an insert with \<^verbatim>\<open>user_id\<close> \<^verbatim>\<open>null\<close> fails.
\<close>

definition saveCpaDistribution ::
  "nat \<Rightarrow> int option \<Rightarrow> int \<Rightarrow> int \<Rightarrow> rat \<Rightarrow> rat \<Rightarrow> string \<Rightarrow> mlm_state
   \<Rightarrow> error + (cpa_distribution \<times> mlm_state)" where
  "saveCpaDistribution cpaValidadoId userId affiliateId affiliateLevel original distributed txid st =
     (case userId of
        None \<Rightarrow> Inl NotNullViolation
      | Some u \<Rightarrow>
          (let row = \<lparr>cd_cpa_validado_id = cpaValidadoId, cd_user_id = u,
                       cd_affiliate_id = affiliateId, cd_affiliate_level = affiliateLevel,
                       cd_original_amount = original, cd_distributed_amount = distributed,
                       cd_transaction_id = txid\<rparr>
           in Inr (row, st\<lparr>cpa_distributions := cpa_distributions st @ [row]\<rparr>)))"

text \<open>\<^verbatim>\<open>distribution.amount < mlmSettings.minimum_amount\<close>: false when the setting is
  \<^verbatim>\<open>undefined\<close>.\<close>

definition below_minimum :: "rat \<Rightarrow> mlm_settings \<Rightarrow> bool" where
  "below_minimum a s = (case minimum_amount s of None \<Rightarrow> False | Some m \<Rightarrow> a < m)"

text \<open>
  \<^verbatim>\<open>executeCpaDistribution\<close>: \<^verbatim>\<open>null\<close> (\<open>Inr None\<close>) for an amount below the
  minimum, otherwise the row saved with \<^verbatim>\<open>user_id: null\<close>.
\<close>

definition executeCpaDistribution ::
  "environment \<Rightarrow> nat \<Rightarrow> distribution \<Rightarrow> mlm_state \<Rightarrow> (error + cpa_distribution option) \<times> mlm_state" where
  "executeCpaDistribution env cpaValidadoId d st =
     (case getConfig_mlm_settings env st of
        (mlmSettings, st1) \<Rightarrow>
          (case mlmSettings of
             None \<Rightarrow> (Inl TypeError, st1)
           | Some s \<Rightarrow>
               if below_minimum (d_amount d) s then (Inr None, st1)
               else
                 (let transactionId = ''CPA_'' @ show_nat cpaValidadoId @ ''_''
                                      @ show_int (d_affiliate_id d) @ ''_'' @ show_int (now env)
                  in (case saveCpaDistribution cpaValidadoId None (d_affiliate_id d)
                             (d_affiliate_level d) (d_amount d) (d_amount d) transactionId st1 of
                        Inl e \<Rightarrow> (Inl e, st1)
                      | Inr (row, st2) \<Rightarrow> (Inr (Some row), st2)))))"

text \<open>The loop \<^verbatim>\<open>for (const distribution of distributions)\<close> filling
  \<^verbatim>\<open>distributionResults\<close>.\<close>

fun execute_all ::
  "environment \<Rightarrow> nat \<Rightarrow> cpa_distribution option list \<Rightarrow> distribution list \<Rightarrow> mlm_state
   \<Rightarrow> (error + cpa_distribution option list) \<times> mlm_state" where
  "execute_all env cpaValidadoId distributionResults [] st = (Inr distributionResults, st)"
| "execute_all env cpaValidadoId distributionResults (d # ds) st =
     (case executeCpaDistribution env cpaValidadoId d st of
        (Inl e, st1) \<Rightarrow> (Inl e, st1)
      | (Inr result, st1) \<Rightarrow>
          execute_all env cpaValidadoId (distributionResults @ [result]) ds st1)"

text \<open>\<^verbatim>\<open>distributionResults.reduce((sum, d) => sum + d.distributed_amount, 0)\<close>: reading
  the property of a \<^verbatim>\<open>null\<close> entry raises.\<close>

fun totalDistributed :: "rat \<Rightarrow> cpa_distribution option list \<Rightarrow> error + rat" where
  "totalDistributed acc [] = Inr acc"
| "totalDistributed acc (None # rest) = Inl TypeError"
| "totalDistributed acc (Some d # rest) = totalDistributed (acc + cd_distributed_amount d) rest"

definition logOperation :: "string \<Rightarrow> string \<Rightarrow> string option \<Rightarrow> mlm_state \<Rightarrow> mlm_state" where
  "logOperation entityId status errorMessage st =
     st\<lparr>operation_logs := operation_logs st
          @ [\<lparr>ol_entity_id = entityId, ol_status = status, ol_error_message = errorMessage\<rparr>]\<rparr>"

record cpa_result =
  r_cpaValidado :: cpa_validado
  r_distributions :: "cpa_distribution option list"
  r_totalDistributed :: rat

text \<open>The \<^verbatim>\<open>try\<close> block of \<^verbatim>\<open>processCpaForDistribution\<close>. Nothing is rolled back
  when it raises: the state reached so far stays.\<close>

definition processCpa_try ::
  "environment \<Rightarrow> int \<Rightarrow> int \<Rightarrow> cpa_data \<Rightarrow> mlm_state \<Rightarrow> (error + cpa_result) \<times> mlm_state" where
  "processCpa_try env userId affiliateId cpaData st =
     (case getConfig_level_amounts env st of
        (cpaAmounts, st1) \<Rightarrow>
     (case getConfig_mlm_settings env st1 of
        (mlmSettings, st2) \<Rightarrow>
     (case getConfig_validation_rules env st2 of
        (validationRules, st3) \<Rightarrow>
          if \<not> validateCpa userId (Some cpaData) validationRules then (Inl ValidationRejected, st3)
          else
            (case mlmSettings of
               None \<Rightarrow> (Inl TypeError, st3)
             | Some s \<Rightarrow>
                 (let upline = getAffiliateUpline affiliateId (max_hierarchy_levels s) (hierarchy st3);
                      distributions = calculateDistributions upline cpaAmounts s
                  in (case saveCpaValidado userId affiliateId cpaData st3 of
                        (cpaValidado, st4) \<Rightarrow>
                          (case execute_all env (cv_id cpaValidado) [] distributions st4 of
                             (Inl e, st5) \<Rightarrow> (Inl e, st5)
                           | (Inr distributionResults, st5) \<Rightarrow>
                               (let st6 = st5\<lparr>statistics :=
                                            updateStatistics (period_start env) (period_end env)
                                              distributions (statistics st5)\<rparr>;
                                    st7 = logOperation (show_nat (cv_id cpaValidado)) ''SUCCESS'' None st6
                                in (case totalDistributed 0 distributionResults of
                                      Inl e \<Rightarrow> (Inl e, st7)
                                    | Inr tot \<Rightarrow>
                                        (Inr \<lparr>r_cpaValidado = cpaValidado,
                                              r_distributions = distributionResults,
                                              r_totalDistributed = tot\<rparr>, st7))))))))))"

text \<open>\<^verbatim>\<open>processCpaForDistribution\<close>: the \<^verbatim>\<open>catch\<close> writes the error to the audit log
  and rethrows it.\<close>

definition processCpaForDistribution ::
  "environment \<Rightarrow> int \<Rightarrow> int \<Rightarrow> cpa_data \<Rightarrow> mlm_state \<Rightarrow> (error + cpa_result) \<times> mlm_state" where
  "processCpaForDistribution env userId affiliateId cpaData st =
     (case processCpa_try env userId affiliateId cpaData st of
        (Inl e, st1) \<Rightarrow>
          (Inl e, logOperation (show_int userId @ ''_'' @ show_int affiliateId) ''ERROR''
                    (Some (error_message e)) st1)
      | (Inr r, st1) \<Rightarrow> (Inr r, st1))"

section \<open>Properties as the specification words them\<close>

text \<open>
  An upline entry is paid when the payout table has a value for its level, the value is
  strictly positive, and the level is at most the configured maximum.
\<close>

definition pays_at_level :: "(string \<rightharpoonup> rat) \<Rightarrow> mlm_settings \<Rightarrow> upline_row \<Rightarrow> bool" where
  "pays_at_level cpaAmounts mlmSettings a =
     ((case cpaAmounts (levelKey (u_upline_level a)) of None \<Rightarrow> False | Some amt \<Rightarrow> 0 < amt)
      \<and> (case max_hierarchy_levels mlmSettings of None \<Rightarrow> False
         | Some m \<Rightarrow> u_upline_level a \<le> m))"

text \<open>The distribution of a paid entry: the table's flat amount for the level.\<close>

definition flat_payout :: "(string \<rightharpoonup> rat) \<Rightarrow> mlm_settings \<Rightarrow> upline_row \<Rightarrow> distribution" where
  "flat_payout cpaAmounts mlmSettings a =
     \<lparr>d_affiliate_id = u_affiliate_id a,
      d_affiliate_level = u_upline_level a,
      d_amount = (case cpaAmounts (levelKey (u_upline_level a)) of None \<Rightarrow> 0 | Some amt \<Rightarrow> amt),
      d_currency = currency_or_default mlmSettings\<rparr>"

text \<open>A group that is \<^verbatim>\<open>null\<close>, has no iterable \<^verbatim>\<open>criteria\<close>, or lists a
  \<^verbatim>\<open>null\<close> criterion.\<close>

definition malformed_group :: "rule_group option \<Rightarrow> bool" where
  "malformed_group g =
     (case g of None \<Rightarrow> True
      | Some gr \<Rightarrow> (case g_criteria gr of None \<Rightarrow> True
                    | Some cs \<Rightarrow> list_ex (\<lambda>c. c = None) cs))"

text \<open>A stored row whose path has as many entries as its level says and ends in the
  participant's own identifier.\<close>

definition path_consistent :: "mlm_row \<Rightarrow> bool" where
  "path_consistent r =
     (int (length (path r)) = level r \<and> path r \<noteq> [] \<and> last (path r) = affiliate_id r)"

text \<open>
  The ancestor chain of the specification: follow the parent pointers for at most \<open>n\<close>
  hops, whatever the activity flags are; it ends at a root or at a parent that is not
  stored.
\<close>

fun ancestors :: "mlm_hierarchy \<Rightarrow> nat \<Rightarrow> int option \<Rightarrow> mlm_row list" where
  "ancestors tbl 0 p = []"
| "ancestors tbl (Suc n) p =
     (case p of None \<Rightarrow> []
      | Some q \<Rightarrow> (case select_affiliate q tbl of [] \<Rightarrow> []
                   | h # _ \<Rightarrow> h # ancestors tbl n (parent_id h)))"

text \<open>The upline rows of a chain of stored rows, numbered upwards from \<open>ul\<close>.\<close>

fun chain_rows :: "int \<Rightarrow> mlm_row list \<Rightarrow> upline_row list" where
  "chain_rows ul [] = []"
| "chain_rows ul (h # hs) =
     \<lparr>u_affiliate_id = affiliate_id h, u_parent_id = parent_id h, u_level = level h,
      u_path = path h, u_upline_level = ul\<rparr> # chain_rows (ul + 1) hs"

subsection \<open>Example data\<close>

text \<open>Participant 1 is a root and 2 its child.\<close>

definition example_pair :: mlm_hierarchy where
  "example_pair =
     [\<lparr>affiliate_id = 1, parent_id = None, level = 1, path = [1], active = True\<rparr>,
      \<lparr>affiliate_id = 2, parent_id = Some 1, level = 2, path = [1, 2], active = True\<rparr>]"

text \<open>A chain 1, 2, 3, 4 from the root down, in which participant 2 is inactive.\<close>

definition example_chain :: mlm_hierarchy where
  "example_chain =
     [\<lparr>affiliate_id = 1, parent_id = None, level = 1, path = [1], active = True\<rparr>,
      \<lparr>affiliate_id = 2, parent_id = Some 1, level = 2, path = [1, 2], active = False\<rparr>,
      \<lparr>affiliate_id = 3, parent_id = Some 2, level = 3, path = [1, 2, 3], active = True\<rparr>,
      \<lparr>affiliate_id = 4, parent_id = Some 3, level = 4, path = [1, 2, 3, 4], active = True\<rparr>]"

text \<open>A freshly started service (both caches empty) over the hierarchy
  \<open>example_pair\<close>, with empty tables otherwise.\<close>

definition example_state :: mlm_state where
  "example_state =
     \<lparr>configCache = \<lparr>cached_level_amounts = None, cached_mlm_settings = None,
                     cached_validation_rules = None\<rparr>,
      clientCache = \<lparr>cc_level_amounts = None, cc_validation_rules = None, cc_mlm_settings = None\<rparr>,
      hierarchy = example_pair,
      cpa_validados = [], cpa_distributions = [], statistics = Map.empty, operation_logs = []\<rparr>"

text \<open>A provider that pays 5.00 at level 2 under a minimum payout of 10.00.\<close>

definition example_env_low :: environment where
  "example_env_low =
     \<lparr>provider = \<lparr>level_amounts_endpoint = Some [''level_2'' \<mapsto> 5],
                  validation_rules_endpoint = None,
                  mlm_settings_endpoint =
                    Some \<lparr>max_hierarchy_levels = Some 5, minimum_amount = Some 10,
                          currency = Some ''BRL''\<rparr>\<rparr>,
      now = 1000, period_start = 1, period_end = 30\<rparr>"

text \<open>A provider that is unavailable at every key.\<close>

definition example_env_down :: environment where
  "example_env_down =
     \<lparr>provider = \<lparr>level_amounts_endpoint = None, validation_rules_endpoint = None,
                  mlm_settings_endpoint = None\<rparr>,
      now = 1000, period_start = 1, period_end = 30\<rparr>"

definition example_cpa :: cpa_data where
  "example_cpa =
     \<lparr>amount = 50, depositAmount = JsNum 100, betsCount = JsNum 15,
      totalBetAmount = JsNum 500, daysActive = JsNum 7, ruleId = None\<rparr>"

text \<open>A stored statistics row of participant 1 for the period (1, 30): three events of
  20.00 each at level 2.\<close>

definition example_statistics :: mlm_statistics where
  "example_statistics =
     [(1, 1, 30) \<mapsto> \<lparr>total_cpas = 3, total_amount = 60,
                       level_cpas = (\<lambda>k. 0)(2 := 3), level_amount = (\<lambda>k. 0)(2 := 60)\<rparr>]"

section \<open>The distribution calculator\<close>

lemma levelKey_2: "levelKey 2 = ''level_2''"
  by (simp add: levelKey_def show_int_def show_nat.simps digit_char_def)

lemma levelKey_3: "levelKey 3 = ''level_3''"
  by (simp add: levelKey_def show_int_def show_nat.simps digit_char_def)

lemma calculateDistributions_loop_eq:
  "calculateDistributions_loop t s acc up
   = acc @ map (flat_payout t s) (filter (pays_at_level t s) up)"
  by (induction up arbitrary: acc)
     (auto simp: pays_at_level_def flat_payout_def within_max_def split: option.splits)

text \<open>
  C7. \<^verbatim>\<open>calculateDistributions\<close> returns, in upline order, exactly one distribution for
  each upline entry that is paid (table value present and strictly positive, level at most
  the configured maximum), with the table's flat amount for the level; the event amount
  is not an input. Every other entry yields nothing. With a configured maximum of at
  least 3, the upline of 456 at level 2 and 789 at level 3 and the table
  \<^verbatim>\<open>{level_2: 20.00, level_3: 5.00}\<close> give two distributions totalling 25.00, and the
  table \<^verbatim>\<open>{level_2: 0.00, level_3: 5.00}\<close> gives the single distribution of 5.00 at
  level 3.
\<close>

theorem calculateDistributions_flat_per_level:
  "calculateDistributions upline t s = map (flat_payout t s) (filter (pays_at_level t s) upline)
   \<and> (\<forall>m r1 r2. max_hierarchy_levels s = Some m \<and> 3 \<le> m \<longrightarrow>
        calculateDistributions
          [r1\<lparr>u_affiliate_id := 456, u_upline_level := 2\<rparr>,
           r2\<lparr>u_affiliate_id := 789, u_upline_level := 3\<rparr>]
          [''level_2'' \<mapsto> 20, ''level_3'' \<mapsto> 5] s
        = [\<lparr>d_affiliate_id = 456, d_affiliate_level = 2, d_amount = 20,
             d_currency = currency_or_default s\<rparr>,
           \<lparr>d_affiliate_id = 789, d_affiliate_level = 3, d_amount = 5,
             d_currency = currency_or_default s\<rparr>]
        \<and> sum_list (map d_amount (calculateDistributions
          [r1\<lparr>u_affiliate_id := 456, u_upline_level := 2\<rparr>,
           r2\<lparr>u_affiliate_id := 789, u_upline_level := 3\<rparr>]
          [''level_2'' \<mapsto> 20, ''level_3'' \<mapsto> 5] s)) = 25
        \<and> calculateDistributions
          [r1\<lparr>u_affiliate_id := 456, u_upline_level := 2\<rparr>,
           r2\<lparr>u_affiliate_id := 789, u_upline_level := 3\<rparr>]
          [''level_2'' \<mapsto> 0, ''level_3'' \<mapsto> 5] s
        = [\<lparr>d_affiliate_id = 789, d_affiliate_level = 3, d_amount = 5,
             d_currency = currency_or_default s\<rparr>])"
  by (simp add: calculateDistributions_def calculateDistributions_loop_eq levelKey_2 levelKey_3
        pays_at_level_def flat_payout_def)

theorem calculateDistributions_flat_per_level_witness:
  "max_hierarchy_levels default_mlm_settings = Some 5 \<and> (3::int) \<le> 5
   \<and> calculateDistributions
        [\<lparr>u_affiliate_id = 456, u_parent_id = Some 789, u_level = 2, u_path = [789, 456],
          u_upline_level = 2\<rparr>,
         \<lparr>u_affiliate_id = 789, u_parent_id = None, u_level = 1, u_path = [789],
          u_upline_level = 3\<rparr>]
        [''level_2'' \<mapsto> 20, ''level_3'' \<mapsto> 5] default_mlm_settings
      = [\<lparr>d_affiliate_id = 456, d_affiliate_level = 2, d_amount = 20, d_currency = ''BRL''\<rparr>,
         \<lparr>d_affiliate_id = 789, d_affiliate_level = 3, d_amount = 5, d_currency = ''BRL''\<rparr>]
   \<and> calculateDistributions
        [\<lparr>u_affiliate_id = 456, u_parent_id = Some 789, u_level = 2, u_path = [789, 456],
          u_upline_level = 2\<rparr>,
         \<lparr>u_affiliate_id = 789, u_parent_id = None, u_level = 1, u_path = [789],
          u_upline_level = 3\<rparr>]
        [''level_2'' \<mapsto> 0, ''level_3'' \<mapsto> 5] default_mlm_settings
      = [\<lparr>d_affiliate_id = 789, d_affiliate_level = 3, d_amount = 5, d_currency = ''BRL''\<rparr>]"
  using calculateDistributions_flat_per_level
    [of "[]" "Map.empty" default_mlm_settings, THEN conjunct2, rule_format,
     of 5 "\<lparr>u_affiliate_id = 456, u_parent_id = Some 789, u_level = 2, u_path = [789, 456],
             u_upline_level = 2\<rparr>"
        "\<lparr>u_affiliate_id = 789, u_parent_id = None, u_level = 1, u_path = [789],
          u_upline_level = 3\<rparr>"]
  by (simp add: default_mlm_settings_def currency_or_default_def)

section \<open>The eligibility validator\<close>

text \<open>
  C8. With an absent rule set (\<^verbatim>\<open>null\<close>), a rule set without a \<^verbatim>\<open>groups\<close> field, or
  one with zero groups, \<^verbatim>\<open>validateCpa\<close> returns true, whatever the measured
  attributes are (also for a \<^verbatim>\<open>null\<close> attribute object).
\<close>

theorem validateCpa_empty_rules_approve:
  "validateCpa userId cpaData None
   \<and> validateCpa userId cpaData (Some (rules\<lparr>groups := None\<rparr>))
   \<and> validateCpa userId cpaData (Some (rules\<lparr>groups := Some []\<rparr>))"
  by (simp add: validateCpa_def validateCpa_try_def)

theorem validateCpa_empty_rules_approve_witness:
  "validateCpa 123 None None
   \<and> validateCpa 123 None (Some \<lparr>groups = None, group_operator = ''AND''\<rparr>)
   \<and> validateCpa 123 None (Some default_validation_rules)"
  using validateCpa_empty_rules_approve [of 123 None "\<lparr>groups = None, group_operator = ''AND''\<rparr>"]
        validateCpa_empty_rules_approve [of 123 None default_validation_rules]
  by (simp add: default_validation_rules_def)

lemma evalCriteria_all_disabled:
  "\<forall>c \<in> set cs. \<exists>cr. c = Some cr \<and> \<not> c_enabled cr \<Longrightarrow> evalCriteria d cs = Inr []"
  by (induction cs) auto

lemma evalGroups_all_disabled:
  "\<forall>g \<in> set grs. \<exists>cs. g_criteria g = Some cs
       \<and> (\<forall>c \<in> set cs. \<exists>cr. c = Some cr \<and> \<not> c_enabled cr)
   \<Longrightarrow> evalGroups d (map Some grs) = Inr (map (\<lambda>g. g_operator g = ''AND'') grs)"
proof (induction grs)
  case Nil
  then show ?case by simp
next
  case (Cons g grs)
  from Cons.prems obtain cs where cs: "g_criteria g = Some cs"
    and dis: "\<forall>c \<in> set cs. \<exists>cr. c = Some cr \<and> \<not> c_enabled cr"
    by auto
  have "evalCriteria d cs = Inr []"
    using dis by (rule evalCriteria_all_disabled)
  with cs have "evalGroup d (Some g) = Inr (g_operator g = ''AND'')"
    by (simp add: evalGroup_def every_def some_def)
  moreover have "evalGroups d (map Some grs) = Inr (map (\<lambda>g. g_operator g = ''AND'') grs)"
    using Cons.prems by (intro Cons.IH) simp
  ultimately show ?case by simp
qed

text \<open>
  C9. A group none of whose criteria is enabled evaluates to true under operator AND and
  to false under operator OR. So \<^verbatim>\<open>validateCpa\<close>, whatever the attributes and the
  top-level operator are, rejects a rule set made of one OR group whose criteria are all
  disabled and approves a rule set made of one such AND group; and on any non-empty rule
  set all of whose groups have no enabled criterion it returns the combination, under
  the top-level operator, of true for each AND group and false for each other group.
\<close>

theorem validateCpa_group_without_enabled_criteria:
  assumes "g_criteria gr = Some cs"
    and "\<forall>c \<in> set cs. \<exists>cr. c = Some cr \<and> \<not> c_enabled cr"
  shows "(g_operator gr = ''AND'' \<longrightarrow> evalGroup cpaData (Some gr) = Inr True)
       \<and> (g_operator gr = ''OR'' \<longrightarrow> evalGroup cpaData (Some gr) = Inr False)
       \<and> (g_operator gr = ''OR'' \<longrightarrow>
            validateCpa userId cpaData (Some \<lparr>groups = Some [Some gr], group_operator = topOperator\<rparr>)
            = False)
       \<and> (g_operator gr = ''AND'' \<longrightarrow>
            validateCpa userId cpaData (Some \<lparr>groups = Some [Some gr], group_operator = topOperator\<rparr>)
            = True)
       \<and> (\<forall>grs. grs \<noteq> []
              \<and> (\<forall>g \<in> set grs. \<exists>ds. g_criteria g = Some ds
                     \<and> (\<forall>c \<in> set ds. \<exists>cr. c = Some cr \<and> \<not> c_enabled cr))
            \<longrightarrow> validateCpa userId cpaData
                  (Some \<lparr>groups = Some (map Some grs), group_operator = topOperator\<rparr>)
                = (if topOperator = ''AND'' then list_all (\<lambda>g. g_operator g = ''AND'') grs
                   else list_ex (\<lambda>g. g_operator g = ''AND'') grs))"
proof -
  have rs: "evalCriteria cpaData cs = Inr []"
    using assms(2) by (rule evalCriteria_all_disabled)
  have g: "evalGroup cpaData (Some gr) = Inr (if g_operator gr = ''AND'' then True else False)"
    using assms(1) rs by (simp add: evalGroup_def every_def some_def)
  have single: "validateCpa userId cpaData
                  (Some \<lparr>groups = Some [Some gr], group_operator = topOperator\<rparr>)
                = (g_operator gr = ''AND'')"
    using g by (simp add: validateCpa_def validateCpa_try_def every_def some_def)
  have many: "validateCpa userId cpaData
                (Some \<lparr>groups = Some (map Some grs), group_operator = topOperator\<rparr>)
              = (if topOperator = ''AND'' then list_all (\<lambda>g. g_operator g = ''AND'') grs
                 else list_ex (\<lambda>g. g_operator g = ''AND'') grs)"
    if ne: "grs \<noteq> []"
      and dis: "\<forall>g \<in> set grs. \<exists>ds. g_criteria g = Some ds
                   \<and> (\<forall>c \<in> set ds. \<exists>cr. c = Some cr \<and> \<not> c_enabled cr)"
    for grs
  proof -
    have "evalGroups cpaData (map Some grs) = Inr (map (\<lambda>g. g_operator g = ''AND'') grs)"
      using dis by (rule evalGroups_all_disabled)
    with ne show ?thesis
      by (simp add: validateCpa_def validateCpa_try_def every_def some_def
            list_all_iff list_ex_iff)
  qed
  from g single many show ?thesis by simp
qed

theorem validateCpa_group_without_enabled_criteria_witness:
  "evalGroup None
     (Some \<lparr>g_operator = ''AND'',
            g_criteria = Some [Some \<lparr>c_type = ''deposit'', c_value = JsNum 30, c_enabled = False\<rparr>]\<rparr>)
   = Inr True
   \<and> evalGroup None
     (Some \<lparr>g_operator = ''OR'',
            g_criteria = Some [Some \<lparr>c_type = ''deposit'', c_value = JsNum 30, c_enabled = False\<rparr>]\<rparr>)
   = Inr False
   \<and> validateCpa 123 None
       (Some \<lparr>groups = Some [Some \<lparr>g_operator = ''OR'',
            g_criteria = Some [Some \<lparr>c_type = ''deposit'', c_value = JsNum 30, c_enabled = False\<rparr>]\<rparr>],
              group_operator = ''AND''\<rparr>)
     = False
   \<and> validateCpa 123 None
       (Some \<lparr>groups = Some [Some \<lparr>g_operator = ''AND'',
            g_criteria = Some [Some \<lparr>c_type = ''deposit'', c_value = JsNum 30, c_enabled = False\<rparr>]\<rparr>],
              group_operator = ''OR''\<rparr>)
     = True
   \<and> validateCpa 123 None
       (Some \<lparr>groups = Some (map Some
            [\<lparr>g_operator = ''OR'', g_criteria = Some []\<rparr>,
             \<lparr>g_operator = ''AND'',
              g_criteria = Some [Some \<lparr>c_type = ''bets'', c_value = JsNum 10, c_enabled = False\<rparr>]\<rparr>]),
              group_operator = ''OR''\<rparr>)
     = True"
  using validateCpa_group_without_enabled_criteria
          [of "\<lparr>g_operator = ''AND'',
            g_criteria = Some [Some \<lparr>c_type = ''deposit'', c_value = JsNum 30, c_enabled = False\<rparr>]\<rparr>"
              "[Some \<lparr>c_type = ''deposit'', c_value = JsNum 30, c_enabled = False\<rparr>]" None 123 "''OR''"]
        validateCpa_group_without_enabled_criteria
          [of "\<lparr>g_operator = ''OR'',
            g_criteria = Some [Some \<lparr>c_type = ''deposit'', c_value = JsNum 30, c_enabled = False\<rparr>]\<rparr>"
              "[Some \<lparr>c_type = ''deposit'', c_value = JsNum 30, c_enabled = False\<rparr>]" None 123 "''AND''"]
        validateCpa_group_without_enabled_criteria
          [of "\<lparr>g_operator = ''OR'', g_criteria = Some []\<rparr>" "[]" None 123 "''OR''",
           THEN conjunct2, THEN conjunct2, THEN conjunct2, THEN conjunct2, rule_format,
           of "[\<lparr>g_operator = ''OR'', g_criteria = Some []\<rparr>,
                \<lparr>g_operator = ''AND'',
                 g_criteria = Some [Some \<lparr>c_type = ''bets'', c_value = JsNum 10, c_enabled = False\<rparr>]\<rparr>]"]
  by simp

lemma evalCriteria_null_entry:
  "None \<in> set cs \<Longrightarrow> \<exists>e. evalCriteria d cs = Inl e"
  by (induction cs) (auto split: option.splits sum.splits)

lemma evalGroup_malformed:
  "malformed_group g \<Longrightarrow> \<exists>e. evalGroup d g = Inl e"
  by (auto simp: malformed_group_def evalGroup_def list_ex_iff
           split: option.splits sum.splits dest: evalCriteria_null_entry [of _ d])

lemma evalGroups_malformed:
  "g \<in> set gs \<Longrightarrow> malformed_group g \<Longrightarrow> \<exists>e. evalGroups d gs = Inl e"
proof (induction gs)
  case Nil
  then show ?case by simp
next
  case (Cons h gs)
  show ?case
  proof (cases "evalGroup d h")
    case (Inl e)
    then show ?thesis by simp
  next
    case (Inr r)
    with Cons.prems evalGroup_malformed [of h d] have "g \<in> set gs" by auto
    with Cons.IH Cons.prems(2) obtain e where "evalGroups d gs = Inl e" by blast
    with Inr show ?thesis by simp
  qed
qed

text \<open>
  C10. \<^verbatim>\<open>validateCpa\<close> always returns a boolean: whenever the evaluation of the rules
  raises, the result is false. A rule set that has groups, one of them malformed (a
  \<^verbatim>\<open>null\<close> group, a group whose \<^verbatim>\<open>criteria\<close> is missing or not iterable, or a
  \<^verbatim>\<open>null\<close> criterion), makes the evaluation raise, so the event is rejected, while
  the empty rule set approves it.
\<close>

theorem validateCpa_fails_closed:
  "(\<forall>e. validateCpa_try userId cpaData validationRules = Inl e
        \<longrightarrow> validateCpa userId cpaData validationRules = False)
   \<and> (\<forall>gs g. groups rules = Some gs \<and> g \<in> set gs \<and> malformed_group g \<longrightarrow>
        (\<exists>e. validateCpa_try userId cpaData (Some rules) = Inl e)
        \<and> validateCpa userId cpaData (Some rules) = False)
   \<and> validateCpa userId cpaData (Some (rules\<lparr>groups := Some []\<rparr>)) = True"
proof (intro conjI allI impI)
  fix e
  assume "validateCpa_try userId cpaData validationRules = Inl e"
  then show "validateCpa userId cpaData validationRules = False"
    by (simp add: validateCpa_def)
next
  fix gs g
  assume a: "groups rules = Some gs \<and> g \<in> set gs \<and> malformed_group g"
  then obtain e where e: "evalGroups cpaData gs = Inl e"
    using evalGroups_malformed by blast
  from a have ne: "gs \<noteq> []" by auto
  from a e ne show "\<exists>e. validateCpa_try userId cpaData (Some rules) = Inl e"
    by (simp add: validateCpa_try_def)
  from a e ne show "validateCpa userId cpaData (Some rules) = False"
    by (simp add: validateCpa_def validateCpa_try_def)
next
  show "validateCpa userId cpaData (Some (rules\<lparr>groups := Some []\<rparr>)) = True"
    by (simp add: validateCpa_def validateCpa_try_def)
qed

theorem validateCpa_fails_closed_witness:
  "validateCpa_try 123 None
     (Some \<lparr>groups = Some [Some \<lparr>g_operator = ''AND'', g_criteria = None\<rparr>],
            group_operator = ''OR''\<rparr>) = Inl TypeError
   \<and> malformed_group (Some \<lparr>g_operator = ''AND'', g_criteria = None\<rparr>)
   \<and> validateCpa 123 None
       (Some \<lparr>groups = Some [Some \<lparr>g_operator = ''AND'', g_criteria = None\<rparr>],
              group_operator = ''OR''\<rparr>) = False"
  using validateCpa_fails_closed
          [of 123 None "Some \<lparr>groups = Some [Some \<lparr>g_operator = ''AND'', g_criteria = None\<rparr>],
                               group_operator = ''OR''\<rparr>"
              "\<lparr>groups = Some [Some \<lparr>g_operator = ''AND'', g_criteria = None\<rparr>],
                group_operator = ''OR''\<rparr>"]
  by (simp add: validateCpa_try_def evalGroup_def malformed_group_def)

section \<open>The hierarchy store\<close>

lemma select_active_mem:
  assumes "select_active p tbl = x # xs"
  shows "x \<in> set tbl"
proof -
  have "x \<in> set (select_active p tbl)" using assms by simp
  then show ?thesis by (cases p) (auto simp: select_active_def)
qed

lemma level_and_path_consistent:
  assumes "\<forall>r \<in> set tbl. path_consistent r" and "level_and_path a p tbl = (l, pa)"
  shows "int (length pa) = l \<and> pa \<noteq> [] \<and> last pa = a"
proof (cases "truthy p")
  case False
  with assms(2) show ?thesis by (auto simp: level_and_path_def)
next
  case True
  show ?thesis
  proof (cases "select_active p tbl")
    case Nil
    with True assms(2) show ?thesis by (auto simp: level_and_path_def)
  next
    case (Cons parent rest)
    then have "path_consistent parent" using assms(1) select_active_mem by blast
    with True Cons assms(2) show ?thesis by (auto simp: level_and_path_def path_consistent_def)
  qed
qed

lemma update_parent_consistent:
  assumes "\<forall>r \<in> set tbl. path_consistent r"
    and "int (length pa) = l \<and> pa \<noteq> [] \<and> last pa = a"
    and "update_parent a p l pa tbl = Inr tbl'"
  shows "\<forall>r \<in> set tbl'. path_consistent r"
  using assms by (auto simp: update_parent_def path_consistent_def split: if_splits)

lemma update_level_path_consistent:
  assumes "\<forall>r \<in> set tbl. path_consistent r"
    and "int (length pa) = l \<and> pa \<noteq> [] \<and> last pa = a"
    and "update_level_path a l pa tbl = Inr tbl'"
  shows "\<forall>r \<in> set tbl'. path_consistent r"
  using assms by (auto simp: update_level_path_def path_consistent_def split: if_splits)

lemma updateDescendants_loop_consistent:
  "\<forall>r \<in> set tbl. path_consistent r \<Longrightarrow> updateDescendants_loop ds tbl = Inr tbl'
   \<Longrightarrow> \<forall>r \<in> set tbl'. path_consistent r"
proof (induction ds arbitrary: tbl)
  case Nil
  then show ?case by simp
next
  case (Cons d ds)
  show ?case
  proof (cases "select_active (parent_id d) tbl")
    case Nil
    with Cons show ?thesis by simp
  next
    case sel: (Cons parent rest)
    then have pok: "path_consistent parent" using Cons.prems(1) select_active_mem by blast
    from Cons.prems(2) sel obtain t1 where
      u: "update_level_path (affiliate_id d) (level parent + 1)
            (path parent @ [affiliate_id d]) tbl = Inr t1"
      and l: "updateDescendants_loop ds t1 = Inr tbl'"
      by (auto split: sum.splits)
    have "\<forall>r \<in> set t1. path_consistent r"
      using Cons.prems(1) _ u
      by (rule update_level_path_consistent) (use pok in \<open>auto simp: path_consistent_def\<close>)
    then show ?thesis using l by (rule Cons.IH)
  qed
qed

lemma upsertAffiliate_consistent:
  assumes "\<forall>r \<in> set tbl. path_consistent r"
  shows "\<forall>r \<in> set (snd (upsertAffiliate a p tbl)). path_consistent r"
proof (cases "select_affiliate a tbl")
  case Nil
  obtain l pa where lp: "level_and_path a p tbl = (l, pa)"
    by (cases "level_and_path a p tbl")
  from level_and_path_consistent [OF assms lp] assms Nil lp show ?thesis
    by (auto simp: upsertAffiliate_def path_consistent_def Let_def)
next
  case (Cons existing rest)
  show ?thesis
  proof (cases "parent_id existing \<noteq> p")
    case False
    with Cons assms show ?thesis by (simp add: upsertAffiliate_def)
  next
    case True
    show ?thesis
    proof (cases "updateAffiliateParent a p tbl")
      case (Inl e)
      with Cons True assms show ?thesis by (simp add: upsertAffiliate_def)
    next
      case (Inr tbl')
      obtain l pa where lp: "level_and_path a p tbl = (l, pa)"
        by (cases "level_and_path a p tbl")
      from Inr lp obtain t1 where u: "update_parent a p l pa tbl = Inr t1"
        and d: "updateDescendants_loop (select_descendants a t1) t1 = Inr tbl'"
        by (auto simp: updateAffiliateParent_def updateDescendants_def split: sum.splits)
      have "\<forall>r \<in> set t1. path_consistent r"
        using assms level_and_path_consistent [OF assms lp] u by (rule update_parent_consistent)
      then have "\<forall>r \<in> set tbl'. path_consistent r"
        using d by (rule updateDescendants_loop_consistent)
      with Cons True Inr show ?thesis by (simp add: upsertAffiliate_def)
    qed
  qed
qed

text \<open>
  The statement of C6 with its third part fails. After inserting root 1 and its child 2
  and then moving 1 under 2, the row of participant 2 has the path 1, 2, 1, 2, whose first
  entry is participant 1, and participant 1 has the parent 2. And a participant inserted
  under a parent that is not stored gets the path of a root while keeping that parent.
\<close>

theorem upsert_path_head_has_parent_counterexample:
  "upsert_all [(1, None), (2, Some 1), (1, Some 2)] []
   = [\<lparr>affiliate_id = 1, parent_id = Some 2, level = 3, path = [1, 2, 1], active = True\<rparr>,
      \<lparr>affiliate_id = 2, parent_id = Some 1, level = 4, path = [1, 2, 1, 2], active = True\<rparr>]
   \<and> map parent_id
         (select_affiliate (hd [1, 2, 1, 2]) (upsert_all [(1, None), (2, Some 1), (1, Some 2)] []))
     = [Some 2]
   \<and> upsert_all [(2, Some 1)] []
     = [\<lparr>affiliate_id = 2, parent_id = Some 1, level = 1, path = [2], active = True\<rparr>]"
  by code_simp

text \<open>
  C6 (amended). In every table reached by a sequence of \<^verbatim>\<open>upsertAffiliate\<close> calls
  (inserts, parent changes with their cascade, failed calls) from a table whose rows are
  path-consistent, the empty table included, every row is path-consistent: the length
  of its path equals its level and the path ends in the participant's own identifier.
  Nothing is said about the first entry of the path.
\<close>

theorem upsert_keeps_path_consistent:
  "\<forall>r \<in> set tbl. path_consistent r \<Longrightarrow> \<forall>r \<in> set (upsert_all ops tbl). path_consistent r"
proof (induction ops arbitrary: tbl)
  case Nil
  then show ?case by simp
next
  case (Cons op ops)
  obtain a p where op: "op = (a, p)" by (cases op)
  from Cons.prems have "\<forall>r \<in> set (snd (upsertAffiliate a p tbl)). path_consistent r"
    by (rule upsertAffiliate_consistent)
  then show ?case using op Cons.IH by simp
qed

theorem upsert_keeps_path_consistent_witness:
  "\<lparr>affiliate_id = 2, parent_id = Some 1, level = 4, path = [1, 2, 1, 2], active = True\<rparr>
     \<in> set (upsert_all [(1, None), (2, Some 1), (1, Some 2)] [])
   \<and> path_consistent
       \<lparr>affiliate_id = 2, parent_id = Some 1, level = 4, path = [1, 2, 1, 2], active = True\<rparr>"
proof -
  have m: "\<lparr>affiliate_id = 2, parent_id = Some 1, level = 4, path = [1, 2, 1, 2], active = True\<rparr>
           \<in> set (upsert_all [(1, None), (2, Some 1), (1, Some 2)] [])"
    by code_simp
  have "\<forall>r \<in> set (upsert_all [(1, None), (2, Some 1), (1, Some 2)] []). path_consistent r"
    using upsert_keeps_path_consistent [of "[]" "[(1, None), (2, Some 1), (1, Some 2)]"] by simp
  with m show ?thesis by blast
qed

lemma select_affiliate_update_other:
  assumes "b \<noteq> a" and "update_level_path b l pa tbl = Inr tbl'"
  shows "select_affiliate a tbl' = select_affiliate a tbl"
proof -
  from assms(2) have t:
    "tbl' = map (\<lambda>r. if affiliate_id r = b then r\<lparr>level := l, path := pa\<rparr> else r) tbl"
    by (auto simp: update_level_path_def split: if_splits)
  show ?thesis unfolding t select_affiliate_def using assms(1)
    by (induction tbl) auto
qed

lemma updateDescendants_loop_error:
  "updateDescendants_loop ds tbl = Inl e \<Longrightarrow> e = CheckViolation"
proof (induction ds arbitrary: tbl)
  case Nil
  then show ?case by simp
next
  case (Cons d ds)
  then show ?case
    by (auto simp: update_level_path_def split: list.splits sum.splits if_splits)
qed

lemma updateDescendants_loop_keeps:
  "\<forall>d \<in> set ds. affiliate_id d \<noteq> a \<Longrightarrow> updateDescendants_loop ds tbl = Inr tbl'
   \<Longrightarrow> select_affiliate a tbl' = select_affiliate a tbl"
proof (induction ds arbitrary: tbl)
  case Nil
  then show ?case by simp
next
  case (Cons d ds)
  show ?case
  proof (cases "select_active (parent_id d) tbl")
    case Nil
    with Cons show ?thesis by simp
  next
    case sel: (Cons parent rest)
    from Cons.prems(2) sel obtain t1 where
      u: "update_level_path (affiliate_id d) (level parent + 1)
            (path parent @ [affiliate_id d]) tbl = Inr t1"
      and l: "updateDescendants_loop ds t1 = Inr tbl'"
      by (auto split: sum.splits)
    from Cons.prems(1) have "affiliate_id d \<noteq> a" by simp
    then have "select_affiliate a t1 = select_affiliate a tbl"
      using u by (rule select_affiliate_update_other)
    moreover have "select_affiliate a tbl' = select_affiliate a t1"
      using Cons.prems(1) l by (intro Cons.IH) auto
    ultimately show ?thesis by simp
  qed
qed

lemma select_affiliate_update_parent:
  assumes "select_affiliate a tbl = [rA]" and "update_parent a p l pa tbl = Inr t1"
  shows "select_affiliate a t1 = [rA\<lparr>parent_id := p, level := l, path := pa\<rparr>]"
proof -
  from assms(2) have t:
    "t1 = map (\<lambda>r. if affiliate_id r = a then r\<lparr>parent_id := p, level := l, path := pa\<rparr> else r) tbl"
    by (auto simp: update_parent_def split: if_splits)
  have "select_affiliate a
          (map (\<lambda>r. if affiliate_id r = a then r\<lparr>parent_id := p, level := l, path := pa\<rparr> else r) tbl)
        = map (\<lambda>r. r\<lparr>parent_id := p, level := l, path := pa\<rparr>) (select_affiliate a tbl)"
    unfolding select_affiliate_def by (induction tbl) auto
  with t assms(1) show ?thesis by simp
qed

text \<open>
  The statement of C2 fails: in the hierarchy of root 1 and its child 2, moving 1 under
  its descendant 2 is not rejected. The call returns the previous row of 1, and both
  stored rows are rewritten.
\<close>

theorem upsert_under_descendant_counterexample:
  "upsertAffiliate 1 (Some 2) example_pair
   = (Inr \<lparr>affiliate_id = 1, parent_id = None, level = 1, path = [1], active = True\<rparr>,
      [\<lparr>affiliate_id = 1, parent_id = Some 2, level = 3, path = [1, 2, 1], active = True\<rparr>,
       \<lparr>affiliate_id = 2, parent_id = Some 1, level = 4, path = [1, 2, 1, 2], active = True\<rparr>])
   \<and> select_affiliate 2 example_pair
     = [\<lparr>affiliate_id = 2, parent_id = Some 1, level = 2, path = [1, 2], active = True\<rparr>]
   \<and> snd (upsertAffiliate 1 (Some 2) example_pair) \<noteq> example_pair"
  by code_simp

lemma update_level_path_bounded:
  assumes "\<forall>r \<in> set tbl. 1 \<le> level r \<and> level r \<le> c"
    and "1 \<le> l" and "l \<le> c + 1" and "c + 1 \<le> 10"
  shows "\<exists>t1. update_level_path b l pa tbl = Inr t1
              \<and> (\<forall>r \<in> set t1. 1 \<le> level r \<and> level r \<le> c + 1)"
proof -
  have "valid_level l" using assms(2-4) by (simp add: valid_level_def)
  then have "update_level_path b l pa tbl
             = Inr (map (\<lambda>r. if affiliate_id r = b then r\<lparr>level := l, path := pa\<rparr> else r) tbl)"
    by (simp add: update_level_path_def)
  moreover have "\<forall>r \<in> set (map (\<lambda>r. if affiliate_id r = b then r\<lparr>level := l, path := pa\<rparr> else r) tbl).
                   1 \<le> level r \<and> level r \<le> c + 1"
    using assms(1-3) by fastforce
  ultimately show ?thesis by blast
qed

lemma update_parent_bounded:
  assumes "\<forall>r \<in> set tbl. 1 \<le> level r \<and> level r \<le> c"
    and "1 \<le> l" and "l \<le> c + 1" and "c + 1 \<le> 10"
  shows "\<exists>t1. update_parent a p l pa tbl = Inr t1
              \<and> (\<forall>r \<in> set t1. 1 \<le> level r \<and> level r \<le> c + 1)
              \<and> length t1 = length tbl"
proof -
  have "valid_level l" using assms(2-4) by (simp add: valid_level_def)
  then have "update_parent a p l pa tbl
             = Inr (map (\<lambda>r. if affiliate_id r = a
                               then r\<lparr>parent_id := p, level := l, path := pa\<rparr> else r) tbl)"
    by (simp add: update_parent_def)
  moreover have "\<forall>r \<in> set (map (\<lambda>r. if affiliate_id r = a
                               then r\<lparr>parent_id := p, level := l, path := pa\<rparr> else r) tbl).
                   1 \<le> level r \<and> level r \<le> c + 1"
    using assms(1-3) by fastforce
  ultimately show ?thesis by simp
qed

lemma select_affiliate_mem:
  "x \<in> set (select_affiliate a tbl) \<Longrightarrow> x \<in> set tbl \<and> affiliate_id x = a"
  by (simp add: select_affiliate_def)

lemma updateDescendants_loop_succeeds:
  "\<forall>r \<in> set tbl. 1 \<le> level r \<and> level r \<le> c \<Longrightarrow> c + int (length ds) \<le> 10
   \<Longrightarrow> \<exists>tbl'. updateDescendants_loop ds tbl = Inr tbl'"
proof (induction ds arbitrary: tbl c)
  case Nil
  then show ?case by simp
next
  case (Cons d ds)
  show ?case
  proof (cases "select_active (parent_id d) tbl")
    case Nil
    have "\<exists>tbl'. updateDescendants_loop ds tbl = Inr tbl'"
      using Cons.prems(1) by (rule Cons.IH) (use Cons.prems(2) in simp)
    with Nil show ?thesis by simp
  next
    case sel: (Cons parent rest)
    then have "parent \<in> set tbl" by (rule select_active_mem)
    with Cons.prems(1) have lv: "1 \<le> level parent + 1" "level parent + 1 \<le> c + 1" by auto
    from Cons.prems(2) have c: "c + 1 \<le> 10" by simp
    from update_level_path_bounded [OF Cons.prems(1) lv c]
    obtain t1 where u: "update_level_path (affiliate_id d) (level parent + 1)
                          (path parent @ [affiliate_id d]) tbl = Inr t1"
      and b: "\<forall>r \<in> set t1. 1 \<le> level r \<and> level r \<le> c + 1"
      by blast
    have "\<exists>tbl'. updateDescendants_loop ds t1 = Inr tbl'"
      using b by (rule Cons.IH) (use Cons.prems(2) in simp)
    with sel u show ?thesis by simp
  qed
qed

text \<open>
  C2 (amended). Let A be a stored participant and D, with a nonzero identifier, an active
  stored descendant of A (A's identifier is in D's path), D not yet A's parent.
  \<^verbatim>\<open>upsertAffiliate(A, D)\<close> has no cycle check. The call either succeeds or fails with
  the violation of the schema's level constraint, the table then being unchanged. When
  it succeeds it returns A's previous row, the table is changed, and A's stored row has
  parent D, level one more than D's previous level and path D's previous path followed
  by A. And it does succeed whenever every stored level is at least 1 and, with the number
  of stored rows added, at most 10, so that no recomputed level can leave the range 1..10.
\<close>

theorem upsert_under_descendant_accepted:
  assumes selA: "select_affiliate A tbl = [rA]"
    and selD: "select_active (Some D) tbl = [rD]"
    and desc: "A \<in> set (path rD)" and neq: "D \<noteq> A" and nz: "D \<noteq> 0"
    and par: "parent_id rA \<noteq> Some D"
  shows "(case upsertAffiliate A (Some D) tbl of
            (Inl e, tbl') \<Rightarrow> e = CheckViolation \<and> tbl' = tbl
          | (Inr r, tbl') \<Rightarrow>
              r = rA \<and> tbl' \<noteq> tbl
              \<and> select_affiliate A tbl'
                = [rA\<lparr>parent_id := Some D, level := level rD + 1, path := path rD @ [A]\<rparr>])
       \<and> ((\<forall>r \<in> set tbl. 1 \<le> level r \<and> level r + int (length tbl) \<le> 10) \<longrightarrow>
            (\<exists>tbl'. upsertAffiliate A (Some D) tbl = (Inr rA, tbl') \<and> tbl' \<noteq> tbl
               \<and> select_affiliate A tbl'
                 = [rA\<lparr>parent_id := Some D, level := level rD + 1, path := path rD @ [A]\<rparr>]))"
proof -
  have lp: "level_and_path A (Some D) tbl = (level rD + 1, path rD @ [A])"
    using selD nz by (simp add: level_and_path_def truthy_def)
  have outcome: "(case upsertAffiliate A (Some D) tbl of
            (Inl e, tbl') \<Rightarrow> e = CheckViolation \<and> tbl' = tbl
          | (Inr r, tbl') \<Rightarrow>
              r = rA \<and> tbl' \<noteq> tbl
              \<and> select_affiliate A tbl'
                = [rA\<lparr>parent_id := Some D, level := level rD + 1, path := path rD @ [A]\<rparr>])"
  proof (cases "updateAffiliateParent A (Some D) tbl")
    case (Inl e)
    have "e = CheckViolation"
      using Inl lp updateDescendants_loop_error
      by (auto simp: updateAffiliateParent_def update_parent_def updateDescendants_def
               split: sum.splits if_splits)
    with Inl selA par show ?thesis by (simp add: upsertAffiliate_def)
  next
    case (Inr tbl')
    from Inr lp obtain t1 where
      u: "update_parent A (Some D) (level rD + 1) (path rD @ [A]) tbl = Inr t1"
      and d: "updateDescendants_loop (select_descendants A t1) t1 = Inr tbl'"
      by (auto simp: updateAffiliateParent_def updateDescendants_def split: sum.splits)
    have s1: "select_affiliate A t1
              = [rA\<lparr>parent_id := Some D, level := level rD + 1, path := path rD @ [A]\<rparr>]"
      using selA u by (rule select_affiliate_update_parent)
    have "\<forall>x \<in> set (select_descendants A t1). affiliate_id x \<noteq> A"
      by (simp add: select_descendants_def)
    then have s2: "select_affiliate A tbl' = select_affiliate A t1"
      using d by (rule updateDescendants_loop_keeps)
    have ne: "tbl' \<noteq> tbl"
    proof
      assume "tbl' = tbl"
      with s1 s2 selA
      have "[rA] = [rA\<lparr>parent_id := Some D, level := level rD + 1, path := path rD @ [A]\<rparr>]"
        by simp
      then have "map parent_id [rA]
                 = map parent_id [rA\<lparr>parent_id := Some D, level := level rD + 1, path := path rD @ [A]\<rparr>]"
        by (rule arg_cong)
      then have "parent_id rA = Some D" by simp
      with par show False by simp
    qed
    from Inr selA par s1 s2 ne show ?thesis by (simp add: upsertAffiliate_def)
  qed
  have succeeds: "\<exists>tbl'. upsertAffiliate A (Some D) tbl = (Inr rA, tbl') \<and> tbl' \<noteq> tbl
               \<and> select_affiliate A tbl'
                 = [rA\<lparr>parent_id := Some D, level := level rD + 1, path := path rD @ [A]\<rparr>]"
    if bound: "\<forall>r \<in> set tbl. 1 \<le> level r \<and> level r + int (length tbl) \<le> 10"
  proof -
    define c where "c = 10 - int (length tbl)"
    have rD: "rD \<in> set tbl" using selD by (rule select_active_mem)
    then have len: "1 \<le> int (length tbl)" by (cases tbl) auto
    from bound have lv: "\<forall>r \<in> set tbl. 1 \<le> level r \<and> level r \<le> c"
      by (auto simp: c_def)
    from lv rD have lD: "1 \<le> level rD + 1" "level rD + 1 \<le> c + 1" by auto
    from len have c1: "c + 1 \<le> 10" by (simp add: c_def)
    from update_parent_bounded [OF lv lD c1]
    obtain t1 where u: "update_parent A (Some D) (level rD + 1) (path rD @ [A]) tbl = Inr t1"
      and b1: "\<forall>r \<in> set t1. 1 \<le> level r \<and> level r \<le> c + 1"
      and l1: "length t1 = length tbl"
      by blast
    have s1: "select_affiliate A t1
              = [rA\<lparr>parent_id := Some D, level := level rD + 1, path := path rD @ [A]\<rparr>]"
      using selA u by (rule select_affiliate_update_parent)
    obtain x where x: "x \<in> set t1" "affiliate_id x = A"
      using s1 select_affiliate_mem [of _ A t1] by fastforce
    have "length (filter (\<lambda>r. A \<in> set (path r) \<and> affiliate_id r \<noteq> A \<and> active r) t1)
          < length t1"
      using x by (intro length_filter_less [of x]) auto
    then have "int (length (select_descendants A t1)) + 1 \<le> int (length tbl)"
      using l1 by (simp add: select_descendants_def)
    then have "c + 1 + int (length (select_descendants A t1)) \<le> 10"
      by (simp add: c_def)
    with b1 obtain tbl' where d: "updateDescendants_loop (select_descendants A t1) t1 = Inr tbl'"
      using updateDescendants_loop_succeeds by blast
    with lp u have "updateAffiliateParent A (Some D) tbl = Inr tbl'"
      by (simp add: updateAffiliateParent_def updateDescendants_def)
    with selA par have r: "upsertAffiliate A (Some D) tbl = (Inr rA, tbl')"
      by (simp add: upsertAffiliate_def)
    with outcome show ?thesis by simp
  qed
  from outcome succeeds show ?thesis by blast
qed

theorem upsert_under_descendant_accepted_witness:
  "select_affiliate 1 example_pair
     = [\<lparr>affiliate_id = 1, parent_id = None, level = 1, path = [1], active = True\<rparr>]
   \<and> select_active (Some 2) example_pair
     = [\<lparr>affiliate_id = 2, parent_id = Some 1, level = 2, path = [1, 2], active = True\<rparr>]
   \<and> map level example_pair = [1, 2] \<and> length example_pair = 2
   \<and> fst (upsertAffiliate 1 (Some 2) example_pair)
     = Inr \<lparr>affiliate_id = 1, parent_id = None, level = 1, path = [1], active = True\<rparr>
   \<and> select_affiliate 1 (snd (upsertAffiliate 1 (Some 2) example_pair))
     = [\<lparr>affiliate_id = 1, parent_id = Some 2, level = 3, path = [1, 2, 1], active = True\<rparr>]"
proof -
  have a: "select_affiliate 1 example_pair
           = [\<lparr>affiliate_id = 1, parent_id = None, level = 1, path = [1], active = True\<rparr>]"
    by code_simp
  have d: "select_active (Some 2) example_pair
           = [\<lparr>affiliate_id = 2, parent_id = Some 1, level = 2, path = [1, 2], active = True\<rparr>]"
    by code_simp
  have b: "\<forall>r \<in> set example_pair. 1 \<le> level r \<and> level r + int (length example_pair) \<le> 10"
    by (simp add: example_pair_def)
  from upsert_under_descendant_accepted [OF a d, THEN conjunct2] b
  obtain t where "upsertAffiliate 1 (Some 2) example_pair
        = (Inr \<lparr>affiliate_id = 1, parent_id = None, level = 1, path = [1], active = True\<rparr>, t)"
    and "select_affiliate 1 t
        = [\<lparr>affiliate_id = 1, parent_id = Some 2, level = 3, path = [1, 2, 1], active = True\<rparr>]"
    by auto
  moreover have "map level example_pair = [1, 2] \<and> length example_pair = 2"
    by (simp add: example_pair_def)
  ultimately show ?thesis using a d by simp
qed

section \<open>Upline resolution\<close>

lemma select_affiliate_unique:
  "distinct (map affiliate_id tbl)
   \<Longrightarrow> select_affiliate q tbl = [] \<or> (\<exists>h. select_affiliate q tbl = [h])"
  unfolding select_affiliate_def
proof (induction tbl)
  case Nil
  then show ?case by simp
next
  case (Cons r tbl)
  show ?case
  proof (cases "affiliate_id r = q")
    case True
    with Cons.prems have "q \<notin> affiliate_id ` set tbl" by auto
    then have "filter (\<lambda>r. affiliate_id r = q) tbl = []" by (auto simp: filter_empty_conv)
    with True show ?thesis by simp
  next
    case False
    with Cons show ?thesis by simp
  qed
qed

lemma join_parent:
  "filter (\<lambda>h. parent_id ut = Some (affiliate_id h) \<and> active h) tbl
   = (case parent_id ut of None \<Rightarrow> [] | Some q \<Rightarrow> filter active (select_affiliate q tbl))"
  by (cases "parent_id ut") (auto simp: select_affiliate_def intro: filter_cong)

lemma upline_tree_Nil: "upline_tree tbl m ul [] = []"
  by (simp add: upline_tree.simps)

lemma upline_tree_single:
  assumes "distinct (map affiliate_id tbl)"
  shows "n = nat (m - ul) \<Longrightarrow> upline_tree tbl m ul [h]
         = chain_rows ul (h # takeWhile active (ancestors tbl n (parent_id h)))"
proof (induction n arbitrary: ul h)
  case 0
  then have "\<not> ul < m" by simp
  then show ?case
    by (simp add: upline_tree.simps [of tbl m ul "[h]"] recursive_term_def upline_rows_def
          upline_tree_Nil)
next
  case (Suc n)
  then have lt: "ul < m" and n: "n = nat (m - (ul + 1))" by auto
  show ?case
  proof (cases "parent_id h")
    case None
    with lt show ?thesis
      by (simp add: upline_tree.simps [of tbl m ul "[h]"] recursive_term_def upline_rows_def
            join_parent upline_tree_Nil)
  next
    case (Some q)
    from select_affiliate_unique [OF assms, of q]
    show ?thesis
    proof
      assume "select_affiliate q tbl = []"
      with lt Some show ?thesis
        by (simp add: upline_tree.simps [of tbl m ul "[h]"] recursive_term_def upline_rows_def
              join_parent upline_tree_Nil)
    next
      assume "\<exists>g. select_affiliate q tbl = [g]"
      then obtain g where g: "select_affiliate q tbl = [g]" ..
      show ?thesis
      proof (cases "active g")
        case False
        with lt Some g show ?thesis
          by (simp add: upline_tree.simps [of tbl m ul "[h]"] recursive_term_def upline_rows_def
                join_parent upline_tree_Nil)
      next
        case True
        have "upline_tree tbl m (ul + 1) [g]
              = chain_rows (ul + 1) (g # takeWhile active (ancestors tbl n (parent_id g)))"
          using n by (rule Suc.IH)
        with lt Some g True show ?thesis
          by (simp add: upline_tree.simps [of tbl m ul "[h]"] recursive_term_def upline_rows_def
                join_parent)
      qed
    qed
  qed
qed

lemma chain_rows_levels: "u \<in> set (chain_rows ul hs) \<Longrightarrow> ul \<le> u_upline_level u"
proof (induction hs arbitrary: ul)
  case Nil
  then show ?case by simp
next
  case (Cons h hs)
  from Cons.prems have "u_upline_level u = ul \<or> u \<in> set (chain_rows (ul + 1) hs)" by auto
  then show ?case
  proof
    assume "u_upline_level u = ul"
    then show ?thesis by simp
  next
    assume "u \<in> set (chain_rows (ul + 1) hs)"
    then have "ul + 1 \<le> u_upline_level u" by (rule Cons.IH)
    then show ?thesis by simp
  qed
qed

lemma chain_rows_sorted: "sorted (map u_upline_level (chain_rows ul hs))"
  by (induction hs arbitrary: ul) (auto dest!: chain_rows_levels)

lemma chain_rows_filter:
  "1 < ul \<Longrightarrow> filter (\<lambda>u. u_upline_level u > 1) (chain_rows ul hs) = chain_rows ul hs"
  by (rule filter_True) (auto dest!: chain_rows_levels)

text \<open>
  The statement of C5 fails. In the chain 1, 2, 3, 4 with participant 2 inactive, the
  ancestors of 4 are 3, 2, 1; the upline of 4 is 3 alone and the upline of 3 is empty:
  the active ancestor 1 above the inactive 2 is never returned.
\<close>

theorem upline_through_inactive_counterexample:
  "map affiliate_id (ancestors example_chain 4 (Some 3)) = [3, 2, 1]
   \<and> map affiliate_id (filter active (ancestors example_chain 4 (Some 3))) = [3, 1]
   \<and> map u_affiliate_id (getAffiliateUpline 4 (Some 5) example_chain) = [3]
   \<and> getAffiliateUpline 3 (Some 5) example_chain = []"
  by code_simp

text \<open>
  C5 (amended). Over a table with unique participant identifiers, the upline of a stored
  participant is empty when the participant is inactive, and otherwise it is the chain
  of its ancestors, from the parent upwards and numbered from upline level 2, over at
  most \<open>maxLevels - 1\<close> hops, cut before the first inactive ancestor: an inactive
  ancestor is left out and ends the resolution, so no ancestor above it is returned.
\<close>

theorem upline_stops_at_inactive:
  assumes "distinct (map affiliate_id tbl)" and "select_affiliate a tbl = [r]"
  shows "getAffiliateUpline a (Some m) tbl
         = (if active r
            then chain_rows 2 (takeWhile active (ancestors tbl (nat (m - 1)) (parent_id r)))
            else [])"
proof -
  have start: "filter (\<lambda>r. affiliate_id r = a \<and> active r) tbl
               = filter active (select_affiliate a tbl)"
    by (simp add: select_affiliate_def conj_commute)
  show ?thesis
  proof (cases "active r")
    case False
    with assms(2) start show ?thesis
      by (simp add: getAffiliateUpline_def upline_tree_Nil)
  next
    case True
    have "upline_tree tbl m 1 [r]
          = chain_rows 1 (r # takeWhile active (ancestors tbl (nat (m - 1)) (parent_id r)))"
      using assms(1) by (rule upline_tree_single) simp
    with True assms(2) start show ?thesis
      by (simp add: getAffiliateUpline_def chain_rows_filter sort_key_id_if_sorted
            chain_rows_sorted)
  qed
qed

theorem upline_stops_at_inactive_witness:
  "distinct (map affiliate_id example_chain)
   \<and> select_affiliate 4 example_chain
     = [\<lparr>affiliate_id = 4, parent_id = Some 3, level = 4, path = [1, 2, 3, 4], active = True\<rparr>]
   \<and> getAffiliateUpline 4 (Some 5) example_chain
     = [\<lparr>u_affiliate_id = 3, u_parent_id = Some 2, u_level = 3, u_path = [1, 2, 3],
         u_upline_level = 2\<rparr>]"
proof -
  have d: "distinct (map affiliate_id example_chain)"
    by code_simp
  have s: "select_affiliate 4 example_chain
           = [\<lparr>affiliate_id = 4, parent_id = Some 3, level = 4, path = [1, 2, 3, 4],
               active = True\<rparr>]"
    by code_simp
  have c: "chain_rows 2 (takeWhile active (ancestors example_chain (nat (5 - 1)) (Some 3)))
           = [\<lparr>u_affiliate_id = 3, u_parent_id = Some 2, u_level = 3, u_path = [1, 2, 3],
               u_upline_level = 2\<rparr>]"
    by code_simp
  from upline_stops_at_inactive [OF d s, of 5] c d s show ?thesis by simp
qed

section \<open>The orchestrator and the statistics\<close>

text \<open>
  C1 (the code at a failing input). The only payable upline entry of participant 2 is its
  parent 1 at level 2, with the table amount 5.00 under a minimum payout of 10.00. The
  distribution is computed and not persisted, but the statistics row of participant 1
  for the period counts it (one event, 5.00), and the operation then raises a TypeError
  while summing the returned total over the \<^verbatim>\<open>null\<close> result.
\<close>

theorem processCpa_below_minimum_counted:
  "calculateDistributions (getAffiliateUpline 2 (Some 5) example_pair) [''level_2'' \<mapsto> 5]
      \<lparr>max_hierarchy_levels = Some 5, minimum_amount = Some 10, currency = Some ''BRL''\<rparr>
   = [\<lparr>d_affiliate_id = 1, d_affiliate_level = 2, d_amount = 5, d_currency = ''BRL''\<rparr>]
   \<and> fst (processCpaForDistribution example_env_low 123 2 example_cpa example_state)
     = Inl TypeError
   \<and> cpa_distributions
       (snd (processCpaForDistribution example_env_low 123 2 example_cpa example_state)) = []
   \<and> map_option total_cpas
       (statistics (snd (processCpaForDistribution example_env_low 123 2 example_cpa example_state))
          (1, 1, 30)) = Some 1
   \<and> map_option total_amount
       (statistics (snd (processCpaForDistribution example_env_low 123 2 example_cpa example_state))
          (1, 1, 30)) = Some 5"
  by code_simp

text \<open>
  C3 (the code at a failing input). Applying a batch of one distribution of amount
  \<open>x\<close> at level 2 leaves, for its participant and period, a row with count 1 and
  amount \<open>x\<close>, whatever was stored before; over the stored row of three events
  totalling 60.00 a batch of one event of 20.00 leaves count 1 and amount 20.00, where
  an increment would leave 4 and 80.00.
\<close>

theorem updateStatistics_overwrites:
  "map_option (\<lambda>s. (total_cpas s, total_amount s, level_cpas s 2, level_amount s 2))
     (updateStatistics ps pe
        [\<lparr>d_affiliate_id = a, d_affiliate_level = 2, d_amount = x, d_currency = c\<rparr>] tbl
        (a, ps, pe)) = Some (1, x, 1, x)
   \<and> map_option (\<lambda>s. (total_cpas s, total_amount s, level_cpas s 2, level_amount s 2))
       (example_statistics (1, 1, 30)) = Some (3, 60, 3, 60)
   \<and> map_option (\<lambda>s. (total_cpas s, total_amount s, level_cpas s 2, level_amount s 2))
       (updateStatistics 1 30
          [\<lparr>d_affiliate_id = 1, d_affiliate_level = 2, d_amount = 20, d_currency = ''BRL''\<rparr>]
          example_statistics (1, 1, 30)) = Some (1, 20, 1, 20)"
  by (simp add: updateStatistics_def group_step_def updateAffiliateStatistics_def
        add_distribution_def zero_stats_def example_statistics_def)

text \<open>
  C4 (the code at a failing input). When the provider fails at the keys
  \<^verbatim>\<open>mlm_settings\<close> and \<^verbatim>\<open>cpa_validation_rules\<close> and neither cache holds them,
  the rules degrade to the default (approve) but the settings come back as
  \<^verbatim>\<open>null\<close>, and \<^verbatim>\<open>processCpaForDistribution\<close> fails with a TypeError for every
  event; \<^verbatim>\<open>getMlmSettings\<close>, which the orchestrator does not call, would have returned
  the default settings.
\<close>

theorem processCpa_settings_unavailable_fails:
  assumes "mlm_settings_endpoint (provider env) = None"
    and "validation_rules_endpoint (provider env) = None"
    and "cached_mlm_settings (configCache st) = None"
    and "cached_validation_rules (configCache st) = None"
    and "cc_mlm_settings (clientCache st) = None"
    and "cc_validation_rules (clientCache st) = None"
  shows "fst (processCpaForDistribution env userId affiliateId cpaData st) = Inl TypeError
       \<and> fst (getMlmSettings (clientCache st) (provider env)) = Some default_mlm_settings"
proof -
  have t: "fst (processCpa_try env userId affiliateId cpaData st) = Inl TypeError"
    using assms
    by (simp add: processCpa_try_def getConfig_level_amounts_def getConfig_mlm_settings_def
          getConfig_validation_rules_def client_getConfig_mlm_settings_def
          client_getConfig_validation_rules_def getCpaValidationRules_def
          default_validation_rules_def validateCpa_def validateCpa_try_def Let_def
          split: option.splits)
  then have "fst (processCpaForDistribution env userId affiliateId cpaData st) = Inl TypeError"
    by (cases "processCpa_try env userId affiliateId cpaData st")
       (auto simp: processCpaForDistribution_def split: sum.splits)
  moreover have "fst (getMlmSettings (clientCache st) (provider env)) = Some default_mlm_settings"
    using assms by (simp add: getMlmSettings_def client_getConfig_mlm_settings_def)
  ultimately show ?thesis by simp
qed

theorem processCpa_settings_unavailable_fails_witness:
  "mlm_settings_endpoint (provider example_env_down) = None
   \<and> cached_mlm_settings (configCache example_state) = None
   \<and> cc_mlm_settings (clientCache example_state) = None
   \<and> fst (processCpaForDistribution example_env_down 123 2 example_cpa example_state)
     = Inl TypeError"
  using processCpa_settings_unavailable_fails [of example_env_down example_state 123 2 example_cpa]
  by (simp add: example_env_down_def example_state_def)

end
